theory Spec2Isabelle
  imports Main "HOL-Library.Multiset" "HOL-Library.Product_Lexorder"
begin

section \<open>Data model\<close>

text \<open>
  The entity store is an SQLite database with four tables (\<^verbatim>\<open>src/db/init.sql\<close>); the
  repositories read rows and convert them to domain objects (\<^verbatim>\<open>src/types/index.ts\<close>).
  A table is a list of rows in insertion (rowid) order. Column values that the
  store keeps as JSON text are kept here as the value that \<^verbatim>\<open>JSON.stringify\<close> was
  given, \<open>None\<close> standing for SQL \<^verbatim>\<open>NULL\<close>. A timestamp is the number of seconds of
  \<^verbatim>\<open>CURRENT_TIMESTAMP\<close>; its textual order is the order of these numbers.
\<close>

datatype json =
  JNull | JBool bool | JNum int | JStr string | JArr "json list" | JObj "(string \<times> json) list"

type_synonym blob = "(string \<times> json) list"

type_synonym timestamp = int

record ProjectRow =
  p_id :: string
  p_name :: string
  p_description :: "string option"
  p_status :: string
  p_current_phase :: string
  p_created_at :: timestamp
  p_updated_at :: timestamp

record TaskRow =
  tr_id :: string
  tr_project_id :: string
  tr_parent_id :: "string option"
  tr_title :: string
  tr_description :: "string option"
  tr_phase :: string
  tr_status :: string
  tr_assignee_type :: "string option"
  tr_priority :: int
  tr_requirements_refs :: "string list option"
  tr_dependencies :: "string list option"
  tr_created_at :: timestamp
  tr_updated_at :: timestamp

record AgentSessionRow =
  sr_id :: string
  sr_project_id :: string
  sr_task_id :: "string option"
  sr_agent_type :: string
  sr_context_data :: "blob option"
  sr_last_active :: timestamp

record CheckpointData =
  completedTasks :: "string list"
  currentTask :: "string option"
  phaseDeliverables :: blob

record WorkflowCheckpointRow =
  c_id :: string
  c_project_id :: string
  c_phase :: string
  c_checkpoint_data :: CheckpointData
  c_created_at :: timestamp

record db =
  projects :: "ProjectRow list"
  tasks :: "TaskRow list"
  agent_sessions :: "AgentSessionRow list"
  workflow_checkpoints :: "WorkflowCheckpointRow list"

text \<open>
  Exceptions. \<open>Error m\<close> is a JavaScript \<^verbatim>\<open>Error\<close> with message \<open>m\<close> (also the
  store's own errors, whose messages the handlers match on); \<open>McpError c m\<close> is the
  protocol error the tool handlers throw.
\<close>

datatype ErrorCode = InvalidParams | InternalError | MethodNotFound

datatype exn = Error string | McpError ErrorCode string

text \<open>
  What a call takes from outside the store: the identifier the store generates for a
  new row (\<^verbatim>\<open>lower(hex(randomblob(16)))\<close>), the clock, whether the document mirror is
  switched on (\<^verbatim>\<open>FileSync.isEnabled\<close>), the outcome of the mirror's file-system calls
  (\<open>Some m\<close>: they throw an error with message \<open>m\<close>), the message of the
  \<^verbatim>\<open>TypeError\<close> that \<^verbatim>\<open>path.join\<close> throws when it is handed the inherited member of
  that name of an object literal instead of a string, and the text the protocol library
  stores as the \<^verbatim>\<open>message\<close> of an \<^verbatim>\<open>McpError\<close> built from a code and a message.
  \<open>max_variables\<close> is the greatest number of \<^verbatim>\<open>?\<close> parameters one statement of the store
  may bind (\<^verbatim>\<open>SQLITE_MAX_VARIABLE_NUMBER\<close> of the SQLite build, 32766 by default).
\<close>

record env =
  fresh_id :: string
  now :: timestamp
  sync_enabled :: bool
  fs_failure :: "string option"
  path_type_error :: "string \<Rightarrow> string"
  mcp_message :: "ErrorCode \<Rightarrow> string \<Rightarrow> string"
  max_variables :: int

fun message_of :: "env \<Rightarrow> exn \<Rightarrow> string" where
  "message_of e (Error m) = m"
| "message_of e (McpError c m) = mcp_message e c m"

text \<open>JavaScript truthiness of an optional string: \<^verbatim>\<open>undefined\<close>, \<^verbatim>\<open>null\<close> and \<^verbatim>\<open>''\<close> are falsy.\<close>

fun truthy :: "string option \<Rightarrow> bool" where
  "truthy None = False"
| "truthy (Some s) = (s \<noteq> [])"

subsection \<open>Validation helpers and row converters (\<^verbatim>\<open>src/types/index.ts\<close>)\<close>

definition isValidProjectStatus :: "string \<Rightarrow> bool" where
  "isValidProjectStatus status = (status \<in> set [''active'', ''paused'', ''completed''])"

definition isValidProjectPhase :: "string \<Rightarrow> bool" where
  "isValidProjectPhase phase = (phase \<in> set [''requirements'', ''design'', ''tasks'', ''execute''])"

definition isValidTaskStatus :: "string \<Rightarrow> bool" where
  "isValidTaskStatus status = (status \<in> set [''pending'', ''in_progress'', ''blocked'', ''completed''])"

definition isValidTaskPhase :: "string \<Rightarrow> bool" where
  "isValidTaskPhase phase = (phase \<in> set [''requirements'', ''design'', ''tasks'', ''execute''])"

definition isValidAgentType :: "string \<Rightarrow> bool" where
  "isValidAgentType ty = (ty \<in> set [''requirements'', ''design'', ''tasks'', ''implementation''])"

definition parseJsonArray :: "string list option \<Rightarrow> string list" where
  "parseJsonArray j = (case j of None \<Rightarrow> [] | Some xs \<Rightarrow> xs)"

definition parseJsonObject :: "blob option \<Rightarrow> blob" where
  "parseJsonObject j = (case j of None \<Rightarrow> [] | Some kv \<Rightarrow> kv)"

text \<open>\<^verbatim>\<open>projectFromRow\<close> and \<^verbatim>\<open>workflowCheckpointFromRow\<close> copy every column.\<close>

type_synonym Project = ProjectRow

type_synonym WorkflowCheckpoint = WorkflowCheckpointRow

definition projectFromRow :: "ProjectRow \<Rightarrow> Project" where
  "projectFromRow row = row"

definition workflowCheckpointFromRow :: "WorkflowCheckpointRow \<Rightarrow> WorkflowCheckpoint" where
  "workflowCheckpointFromRow row = row"

record Task =
  t_id :: string
  t_projectId :: string
  t_parentId :: "string option"
  t_title :: string
  t_description :: "string option"
  t_phase :: string
  t_status :: string
  t_assigneeType :: "string option"
  t_priority :: int
  t_requirementsRefs :: "string list"
  t_dependencies :: "string list"
  t_createdAt :: timestamp
  t_updatedAt :: timestamp

text \<open>\<^verbatim>\<open>row.parent_id || undefined\<close>: an empty string becomes \<^verbatim>\<open>undefined\<close> like \<^verbatim>\<open>NULL\<close>.\<close>

definition or_undefined :: "string option \<Rightarrow> string option" where
  "or_undefined v = (if truthy v then v else None)"

definition taskFromRow :: "TaskRow \<Rightarrow> Task" where
  "taskFromRow row =
     \<lparr> t_id = tr_id row,
       t_projectId = tr_project_id row,
       t_parentId = or_undefined (tr_parent_id row),
       t_title = tr_title row,
       t_description = tr_description row,
       t_phase = tr_phase row,
       t_status = tr_status row,
       t_assigneeType = or_undefined (tr_assignee_type row),
       t_priority = tr_priority row,
       t_requirementsRefs = parseJsonArray (tr_requirements_refs row),
       t_dependencies = parseJsonArray (tr_dependencies row),
       t_createdAt = tr_created_at row,
       t_updatedAt = tr_updated_at row \<rparr>"

record AgentSession =
  s_id :: string
  s_projectId :: string
  s_taskId :: "string option"
  s_agentType :: string
  s_contextData :: blob
  s_lastActive :: timestamp

definition agentSessionFromRow :: "AgentSessionRow \<Rightarrow> AgentSession" where
  "agentSessionFromRow row =
     \<lparr> s_id = sr_id row,
       s_projectId = sr_project_id row,
       s_taskId = or_undefined (sr_task_id row),
       s_agentType = sr_agent_type row,
       s_contextData = parseJsonObject (sr_context_data row),
       s_lastActive = sr_last_active row \<rparr>"

section \<open>WorkflowRepository\<close>

record WorkflowCheckpointPartial =
  cu_projectId :: "string option"
  cu_phase :: "string option"
  cu_checkpointData :: "CheckpointData option"

definition Workflow_findById :: "db \<Rightarrow> string \<Rightarrow> WorkflowCheckpoint option" where
  "Workflow_findById d i =
     (case filter (\<lambda>r. c_id r = i) (workflow_checkpoints d) of
        [] \<Rightarrow> None
      | row # _ \<Rightarrow> Some (workflowCheckpointFromRow row))"

text \<open>\<^verbatim>\<open>update\<close> throws before it touches the store, whatever its arguments.\<close>

definition Workflow_update ::
  "db \<Rightarrow> string \<Rightarrow> WorkflowCheckpointPartial \<Rightarrow> (exn + WorkflowCheckpoint option) \<times> db" where
  "Workflow_update d i updates = (Inl (Error ''Workflow checkpoints cannot be updated''), d)"


definition getLatestCheckpoint :: "db \<Rightarrow> string \<Rightarrow> WorkflowCheckpoint option" where
  \<comment> \<open>\<^verbatim>\<open>WHERE project_id = ? ORDER BY created_at DESC LIMIT 1\<close>\<close>
  "getLatestCheckpoint d projectId =
     (case sort_key (\<lambda>r. - c_created_at r)
             (filter (\<lambda>r. c_project_id r = projectId) (workflow_checkpoints d)) of
        [] \<Rightarrow> None
      | row # _ \<Rightarrow> Some (workflowCheckpointFromRow row))"

section \<open>ProjectRepository\<close>

record ProjectPartial =
  pu_name :: "string option"
  pu_description :: "string option option"
  pu_status :: "string option"
  pu_currentPhase :: "string option"

definition Project_findById :: "db \<Rightarrow> string \<Rightarrow> Project option" where
  "Project_findById d i = map_option projectFromRow (find (\<lambda>r. p_id r = i) (projects d))"

definition Project_findByName :: "db \<Rightarrow> string \<Rightarrow> Project option" where
  "Project_findByName d n = map_option projectFromRow (find (\<lambda>r. p_name r = n) (projects d))"

text \<open>
  The \<^verbatim>\<open>INSERT\<close> into \<^verbatim>\<open>projects\<close> with the constraints of the schema: the two
  \<^verbatim>\<open>CHECK\<close>s, the primary key and \<^verbatim>\<open>name ... UNIQUE\<close>. A violated constraint throws
  and leaves the table as it was.
\<close>

definition sql_insert_projects :: "db \<Rightarrow> ProjectRow \<Rightarrow> exn + db" where
  "sql_insert_projects d row =
     (if \<not> isValidProjectStatus (p_status row) then Inl (Error ''CHECK constraint failed: status'')
      else if \<not> isValidProjectPhase (p_current_phase row)
        then Inl (Error ''CHECK constraint failed: current_phase'')
      else if p_id row \<in> set (map p_id (projects d))
        then Inl (Error ''UNIQUE constraint failed: projects.id'')
      else if p_name row \<in> set (map p_name (projects d))
        then Inl (Error ''UNIQUE constraint failed: projects.name'')
      else Inr (d\<lparr>projects := projects d @ [row]\<rparr>))"

fun or_default :: "string option \<Rightarrow> string \<Rightarrow> string" where
  "or_default v dflt = (if truthy v then the v else dflt)"

definition Project_create :: "env \<Rightarrow> db \<Rightarrow> ProjectPartial \<Rightarrow> (exn + Project) \<times> db" where
  "Project_create e d item =
     (if \<not> truthy (pu_name item) then (Inl (Error ''Project name is required''), d)
      else
        let row = \<lparr> p_id = fresh_id e,
                    p_name = the (pu_name item),
                    p_description = (case pu_description item of Some v \<Rightarrow> or_undefined v | None \<Rightarrow> None),
                    p_status = or_default (pu_status item) ''active'',
                    p_current_phase = or_default (pu_currentPhase item) ''requirements'',
                    p_created_at = now e,
                    p_updated_at = now e \<rparr>
        in (case sql_insert_projects d row of
              Inl x \<Rightarrow> (Inl x, d)
            | Inr d' \<Rightarrow> (Inr (projectFromRow row), d')))"

text \<open>
  The \<^verbatim>\<open>UPDATE projects SET ... WHERE id = ?\<close> built from the fields present, followed
  by the trigger that stamps \<^verbatim>\<open>updated_at\<close>. It returns the number of rows changed.
\<close>

definition project_set :: "timestamp \<Rightarrow> ProjectPartial \<Rightarrow> ProjectRow \<Rightarrow> ProjectRow" where
  "project_set t u row =
     row\<lparr> p_name := (case pu_name u of Some n \<Rightarrow> n | None \<Rightarrow> p_name row),
          p_description := (case pu_description u of Some v \<Rightarrow> v | None \<Rightarrow> p_description row),
          p_status := (case pu_status u of Some s \<Rightarrow> s | None \<Rightarrow> p_status row),
          p_current_phase := (case pu_currentPhase u of Some ph \<Rightarrow> ph | None \<Rightarrow> p_current_phase row),
          p_updated_at := t \<rparr>"

definition sql_update_projects :: "env \<Rightarrow> db \<Rightarrow> string \<Rightarrow> ProjectPartial \<Rightarrow> exn + nat \<times> db" where
  "sql_update_projects e d i u =
     (if (case pu_name u of
            Some n \<Rightarrow> i \<in> set (map p_id (projects d))
                      \<and> n \<in> set (map p_name (filter (\<lambda>r. p_id r \<noteq> i) (projects d)))
          | None \<Rightarrow> False)
      then Inl (Error ''UNIQUE constraint failed: projects.name'')
      else Inr (length (filter (\<lambda>r. p_id r = i) (projects d)),
                d\<lparr>projects := map (\<lambda>r. if p_id r = i then project_set (now e) u r else r) (projects d)\<rparr>))"

definition Project_update ::
  "env \<Rightarrow> db \<Rightarrow> string \<Rightarrow> ProjectPartial \<Rightarrow> (exn + Project option) \<times> db" where
  "Project_update e d i u =
     (if (case pu_status u of Some s \<Rightarrow> \<not> isValidProjectStatus s | None \<Rightarrow> False)
        then (Inl (Error (''Invalid project status: '' @ the (pu_status u))), d)
      else if (case pu_currentPhase u of Some ph \<Rightarrow> \<not> isValidProjectPhase ph | None \<Rightarrow> False)
        then (Inl (Error (''Invalid project phase: '' @ the (pu_currentPhase u))), d)
      else if pu_name u = None \<and> pu_description u = None \<and> pu_status u = None
              \<and> pu_currentPhase u = None
        then (Inr (Project_findById d i), d)
      else (case sql_update_projects e d i u of
              Inl x \<Rightarrow> (Inl x, d)
            | Inr (changes, d') \<Rightarrow>
                if changes = 0 then (Inr None, d') else (Inr (Project_findById d' i), d')))"

section \<open>TaskRepository\<close>

record TaskPartial =
  tu_title :: "string option"
  tu_description :: "string option option"
  tu_status :: "string option"
  tu_assigneeType :: "string option"
  tu_priority :: "int option"
  tu_requirementsRefs :: "string list option"
  tu_dependencies :: "string list option"

record TaskFilter =
  f_status :: "string option"
  f_phase :: "string option"
  f_assigneeType :: "string option"
  f_parentId :: "string option option"

definition no_filter :: TaskFilter where
  "no_filter = \<lparr> f_status = None, f_phase = None, f_assigneeType = None, f_parentId = None \<rparr>"

definition Task_findById :: "db \<Rightarrow> string \<Rightarrow> Task option" where
  "Task_findById d i = map_option taskFromRow (find (\<lambda>r. tr_id r = i) (tasks d))"

text \<open>
  \<^verbatim>\<open>create\<close>: the only statement that writes \<^verbatim>\<open>parent_id\<close>. The foreign keys are enforced:
  the project must exist, and a parent, when given, must be a row of the table (or the
  new row itself).
\<close>

record TaskItem =
  tc_projectId :: "string option"
  tc_parentId :: "string option"
  tc_title :: "string option"
  tc_description :: "string option"
  tc_phase :: "string option"
  tc_status :: "string option"
  tc_assigneeType :: "string option"
  tc_priority :: "int option"
  tc_requirementsRefs :: "string list option"
  tc_dependencies :: "string list option"

definition sql_insert_tasks :: "db \<Rightarrow> TaskRow \<Rightarrow> exn + db" where
  "sql_insert_tasks d row =
     (if \<not> isValidTaskPhase (tr_phase row) then Inl (Error ''CHECK constraint failed: phase'')
      else if \<not> isValidTaskStatus (tr_status row) then Inl (Error ''CHECK constraint failed: status'')
      else if tr_id row \<in> set (map tr_id (tasks d))
        then Inl (Error ''UNIQUE constraint failed: tasks.id'')
      else if tr_project_id row \<notin> set (map p_id (projects d))
              \<or> (case tr_parent_id row of
                    None \<Rightarrow> False
                  | Some p \<Rightarrow> p \<notin> set (map tr_id (tasks d)) \<and> p \<noteq> tr_id row)
        then Inl (Error ''FOREIGN KEY constraint failed'')
      else Inr (d\<lparr>tasks := tasks d @ [row]\<rparr>))"

definition Task_create :: "env \<Rightarrow> db \<Rightarrow> TaskItem \<Rightarrow> (exn + Task) \<times> db" where
  "Task_create e d item =
     (if \<not> truthy (tc_projectId item) \<or> \<not> truthy (tc_title item) \<or> \<not> truthy (tc_phase item)
        then (Inl (Error ''Task projectId, title, and phase are required''), d)
      else if \<not> isValidTaskPhase (the (tc_phase item))
        then (Inl (Error (''Invalid task phase: '' @ the (tc_phase item))), d)
      else
        let row = \<lparr> tr_id = fresh_id e,
                    tr_project_id = the (tc_projectId item),
                    tr_parent_id = or_undefined (tc_parentId item),
                    tr_title = the (tc_title item),
                    tr_description = or_undefined (tc_description item),
                    tr_phase = the (tc_phase item),
                    tr_status = or_default (tc_status item) ''pending'',
                    tr_assignee_type = or_undefined (tc_assigneeType item),
                    tr_priority = (case tc_priority item of
                                     None \<Rightarrow> 1 | Some n \<Rightarrow> if n = 0 then 1 else n),
                    tr_requirements_refs = tc_requirementsRefs item,
                    tr_dependencies = tc_dependencies item,
                    tr_created_at = now e,
                    tr_updated_at = now e \<rparr>
        in (case sql_insert_tasks d row of
              Inl x \<Rightarrow> (Inl x, d)
            | Inr d' \<Rightarrow> (Inr (taskFromRow row), d')))"

text \<open>
  The \<^verbatim>\<open>WHERE\<close> clause \<^verbatim>\<open>findByProject\<close> assembles: a condition is added for a
  filter field only when the field is truthy (\<^verbatim>\<open>parentId\<close>: when it is not
  \<^verbatim>\<open>undefined\<close>). A \<^verbatim>\<open>NULL\<close> column never equals a parameter.
\<close>

definition task_matches :: "string \<Rightarrow> TaskFilter \<Rightarrow> TaskRow \<Rightarrow> bool" where
  "task_matches projectId f r =
     (tr_project_id r = projectId
      \<and> (if truthy (f_status f) then tr_status r = the (f_status f) else True)
      \<and> (if truthy (f_phase f) then tr_phase r = the (f_phase f) else True)
      \<and> (if truthy (f_assigneeType f) then tr_assignee_type r = f_assigneeType f else True)
      \<and> (case f_parentId f of
            None \<Rightarrow> True
          | Some None \<Rightarrow> tr_parent_id r = None
          | Some (Some p) \<Rightarrow> tr_parent_id r = Some p))"

definition Task_findByProject :: "db \<Rightarrow> string \<Rightarrow> TaskFilter \<Rightarrow> Task list" where
  \<comment> \<open>\<^verbatim>\<open>ORDER BY priority DESC, created_at ASC\<close>\<close>
  "Task_findByProject d projectId f =
     map taskFromRow
       (sort_key (\<lambda>r. (- tr_priority r, tr_created_at r))
          (filter (task_matches projectId f) (tasks d)))"

definition task_set :: "timestamp \<Rightarrow> TaskPartial \<Rightarrow> TaskRow \<Rightarrow> TaskRow" where
  "task_set t u row =
     row\<lparr> tr_title := (case tu_title u of Some v \<Rightarrow> v | None \<Rightarrow> tr_title row),
          tr_description := (case tu_description u of Some v \<Rightarrow> v | None \<Rightarrow> tr_description row),
          tr_status := (case tu_status u of Some v \<Rightarrow> v | None \<Rightarrow> tr_status row),
          tr_assignee_type :=
            (case tu_assigneeType u of Some v \<Rightarrow> Some v | None \<Rightarrow> tr_assignee_type row),
          tr_priority := (case tu_priority u of Some v \<Rightarrow> v | None \<Rightarrow> tr_priority row),
          tr_requirements_refs :=
            (case tu_requirementsRefs u of Some v \<Rightarrow> Some v | None \<Rightarrow> tr_requirements_refs row),
          tr_dependencies :=
            (case tu_dependencies u of Some v \<Rightarrow> Some v | None \<Rightarrow> tr_dependencies row),
          tr_updated_at := t \<rparr>"

definition sql_update_tasks :: "env \<Rightarrow> db \<Rightarrow> string \<Rightarrow> TaskPartial \<Rightarrow> nat \<times> db" where
  "sql_update_tasks e d i u =
     (length (filter (\<lambda>r. tr_id r = i) (tasks d)),
      d\<lparr>tasks := map (\<lambda>r. if tr_id r = i then task_set (now e) u r else r) (tasks d)\<rparr>)"

definition Task_update ::
  "env \<Rightarrow> db \<Rightarrow> string \<Rightarrow> TaskPartial \<Rightarrow> (exn + Task option) \<times> db" where
  "Task_update e d i u =
     (if (case tu_status u of Some s \<Rightarrow> \<not> isValidTaskStatus s | None \<Rightarrow> False)
        then (Inl (Error (''Invalid task status: '' @ the (tu_status u))), d)
      else if tu_title u = None \<and> tu_description u = None \<and> tu_status u = None
              \<and> tu_assigneeType u = None \<and> tu_priority u = None
              \<and> tu_requirementsRefs u = None \<and> tu_dependencies u = None
        then (Inr (Task_findById d i), d)
      else (case sql_update_tasks e d i u of
              (changes, d') \<Rightarrow>
                if changes = 0 then (Inr None, d') else (Inr (Task_findById d' i), d')))"

text \<open>
  \<^verbatim>\<open>checkDependencies\<close>: the count is
  \<^verbatim>\<open>SELECT COUNT(*) FROM tasks WHERE id IN (?, ..., ?) AND status != 'completed'\<close>,
  over the whole table, with one \<^verbatim>\<open>?\<close> bound per entry of the dependency list. The store
  refuses a statement with more parameters than it can bind, and the call throws.
\<close>

definition checkDependencies :: "env \<Rightarrow> db \<Rightarrow> string \<Rightarrow> exn + bool" where
  "checkDependencies e d taskId =
     (case Task_findById d taskId of
        None \<Rightarrow> Inr True
      | Some task \<Rightarrow>
          if length (t_dependencies task) = 0 then Inr True
          else if max_variables e < int (length (t_dependencies task))
            then Inl (Error ''too many SQL variables'')
          else
            let incomplete =
                  length (filter (\<lambda>r. tr_id r \<in> set (t_dependencies task)
                                        \<and> tr_status r \<noteq> ''completed'') (tasks d))
            in Inr (incomplete = 0))"

text \<open>
  \<^verbatim>\<open>getTaskTree\<close>. The nodes are objects that the lookup \<^verbatim>\<open>taskMap\<close> and the children
  arrays share by reference; here a node is referred to by its key in \<^verbatim>\<open>taskMap\<close>, and
  the result is the array of root references together with the nodes they lead to.
\<close>

record TaskNode =
  n_task :: Task
  children :: "string list"

type_synonym taskMap = "string \<rightharpoonup> TaskNode"

definition set_node :: "Task \<Rightarrow> taskMap \<Rightarrow> taskMap" where
  \<comment> \<open>\<^verbatim>\<open>taskMap.set(task.id, { ...task, children: [] })\<close>\<close>
  "set_node task m = m(t_id task \<mapsto> \<lparr> n_task = task, children = [] \<rparr>)"

definition first_pass :: "Task list \<Rightarrow> taskMap" where
  "first_pass allTasks = fold set_node allTasks Map.empty"

definition has_parent :: "taskMap \<Rightarrow> Task \<Rightarrow> bool" where
  \<comment> \<open>\<^verbatim>\<open>task.parentId && taskMap.has(task.parentId)\<close>\<close>
  "has_parent m task = (truthy (t_parentId task) \<and> m (the (t_parentId task)) \<noteq> None)"

definition attach :: "Task \<Rightarrow> taskMap \<times> string list \<Rightarrow> taskMap \<times> string list" where
  "attach task st =
     (case st of (m, rootTasks) \<Rightarrow>
        if has_parent m task then
          (let p = the (t_parentId task); parent = the (m p)
           in (m(p \<mapsto> parent\<lparr>children := children parent @ [t_id task]\<rparr>), rootTasks))
        else (m, rootTasks @ [t_id task]))"

definition buildTree :: "Task list \<Rightarrow> string list \<times> taskMap" where
  "buildTree allTasks =
     (case fold attach allTasks (first_pass allTasks, []) of (m, rootTasks) \<Rightarrow> (rootTasks, m))"

definition getTaskTree :: "db \<Rightarrow> string \<Rightarrow> string list \<times> taskMap" where
  "getTaskTree d projectId = buildTree (Task_findByProject d projectId no_filter)"

text \<open>The nodes of the returned forest: the roots and whatever their children lists lead to.\<close>

inductive in_forest :: "string list \<times> taskMap \<Rightarrow> string \<Rightarrow> bool" where
  root: "i \<in> set rootTasks \<Longrightarrow> in_forest (rootTasks, m) i"
| child: "in_forest (rootTasks, m) p \<Longrightarrow> m p = Some node \<Longrightarrow> i \<in> set (children node)
          \<Longrightarrow> in_forest (rootTasks, m) i"

section \<open>WorkflowRepository: create, checkpoint, resume\<close>

definition sql_insert_checkpoints :: "db \<Rightarrow> WorkflowCheckpointRow \<Rightarrow> exn + db" where
  "sql_insert_checkpoints d row =
     (if c_id row \<in> set (map c_id (workflow_checkpoints d))
        then Inl (Error ''UNIQUE constraint failed: workflow_checkpoints.id'')
      else if c_project_id row \<notin> set (map p_id (projects d))
        then Inl (Error ''FOREIGN KEY constraint failed'')
      else Inr (d\<lparr>workflow_checkpoints := workflow_checkpoints d @ [row]\<rparr>))"

definition Workflow_create ::
  "env \<Rightarrow> db \<Rightarrow> WorkflowCheckpointPartial \<Rightarrow> (exn + WorkflowCheckpoint) \<times> db" where
  "Workflow_create e d item =
     (if \<not> truthy (cu_projectId item) \<or> \<not> truthy (cu_phase item) \<or> cu_checkpointData item = None
        then (Inl (Error ''WorkflowCheckpoint projectId, phase, and checkpointData are required''), d)
      else
        let row = \<lparr> c_id = fresh_id e,
                    c_project_id = the (cu_projectId item),
                    c_phase = the (cu_phase item),
                    c_checkpoint_data = the (cu_checkpointData item),
                    c_created_at = now e \<rparr>
        in (case sql_insert_checkpoints d row of
              Inl x \<Rightarrow> (Inl x, d)
            | Inr d' \<Rightarrow> (Inr (workflowCheckpointFromRow row), d')))"

definition createCheckpoint ::
  "env \<Rightarrow> db \<Rightarrow> string \<Rightarrow> string \<Rightarrow> (exn + WorkflowCheckpoint) \<times> db" where
  "createCheckpoint e d projectId phase =
     (let completed = Task_findByProject d projectId
                        (no_filter\<lparr>f_phase := Some phase, f_status := Some ''completed''\<rparr>);
          inProgressTasks = Task_findByProject d projectId
                        (no_filter\<lparr>f_phase := Some phase, f_status := Some ''in_progress''\<rparr>);
          checkpointData =
            \<lparr> completedTasks = map t_id completed,
              currentTask = (case inProgressTasks of [] \<Rightarrow> None | t # _ \<Rightarrow> Some (t_id t)),
              phaseDeliverables = [] \<rparr>
      in Workflow_create e d
           \<lparr> cu_projectId = Some projectId, cu_phase = Some phase,
             cu_checkpointData = Some checkpointData \<rparr>)"

record WorkflowState =
  ws_project :: Project
  ws_currentPhase :: string
  ws_checkpoint :: "WorkflowCheckpoint option"
  ws_pendingTasks :: "Task list"
  ws_completedTasks :: "Task list"

text \<open>\<^verbatim>\<open>resumeWorkflow\<close> issues three \<^verbatim>\<open>SELECT\<close>s; the store it leaves is returned with the result.\<close>

definition resumeWorkflow :: "db \<Rightarrow> string \<Rightarrow> (exn + WorkflowState) \<times> db" where
  "resumeWorkflow d projectId =
     (case Project_findById d projectId of
        None \<Rightarrow> (Inl (Error (''Project not found: '' @ projectId)), d)
      | Some project \<Rightarrow>
          let checkpoint = getLatestCheckpoint d projectId;
              allTasks = Task_findByProject d projectId
                           (no_filter\<lparr>f_phase := Some (p_current_phase project)\<rparr>);
              completed = filter (\<lambda>t. t_status t = ''completed'') allTasks;
              pendingTasks = filter (\<lambda>t. t_status t \<noteq> ''completed'') allTasks
          in (Inr \<lparr> ws_project = project,
                    ws_currentPhase = p_current_phase project,
                    ws_checkpoint = checkpoint,
                    ws_pendingTasks = pendingTasks,
                    ws_completedTasks = completed \<rparr>, d))"

section \<open>AgentSessionRepository\<close>

record AgentSessionPartial =
  su_projectId :: "string option"
  su_taskId :: "string option"
  su_agentType :: "string option"
  su_contextData :: "blob option"

definition AgentSession_findById :: "db \<Rightarrow> string \<Rightarrow> AgentSession option" where
  "AgentSession_findById d i =
     map_option agentSessionFromRow (find (\<lambda>r. sr_id r = i) (agent_sessions d))"

definition AgentSession_findByProject :: "db \<Rightarrow> string \<Rightarrow> AgentSession list" where
  \<comment> \<open>\<^verbatim>\<open>WHERE project_id = ? ORDER BY last_active DESC\<close>\<close>
  "AgentSession_findByProject d projectId =
     map agentSessionFromRow
       (sort_key (\<lambda>r. - sr_last_active r)
          (filter (\<lambda>r. sr_project_id r = projectId) (agent_sessions d)))"

definition findByProjectAndType :: "db \<Rightarrow> string \<Rightarrow> string \<Rightarrow> AgentSession option" where
  \<comment> \<open>\<^verbatim>\<open>WHERE project_id = ? AND agent_type = ? ORDER BY last_active DESC LIMIT 1\<close>\<close>
  "findByProjectAndType d projectId agentType =
     (case sort_key (\<lambda>r. - sr_last_active r)
             (filter (\<lambda>r. sr_project_id r = projectId \<and> sr_agent_type r = agentType)
                (agent_sessions d)) of
        [] \<Rightarrow> None
      | row # _ \<Rightarrow> Some (agentSessionFromRow row))"

definition getAllContexts :: "db \<Rightarrow> string \<Rightarrow> (string \<rightharpoonup> blob)" where
  \<comment> \<open>the loop \<^verbatim>\<open>contexts[session.agentType] = session.contextData\<close>, also in \<^verbatim>\<open>handleContextLoad\<close>\<close>
  "getAllContexts d projectId =
     fold (\<lambda>session contexts. contexts(s_agentType session \<mapsto> s_contextData session))
       (AgentSession_findByProject d projectId) Map.empty"

definition sql_insert_sessions :: "db \<Rightarrow> AgentSessionRow \<Rightarrow> exn + db" where
  "sql_insert_sessions d row =
     (if sr_id row \<in> set (map sr_id (agent_sessions d))
        then Inl (Error ''UNIQUE constraint failed: agent_sessions.id'')
      else if sr_project_id row \<notin> set (map p_id (projects d))
              \<or> (case sr_task_id row of None \<Rightarrow> False | Some t \<Rightarrow> t \<notin> set (map tr_id (tasks d)))
        then Inl (Error ''FOREIGN KEY constraint failed'')
      else Inr (d\<lparr>agent_sessions := agent_sessions d @ [row]\<rparr>))"

definition AgentSession_create ::
  "env \<Rightarrow> db \<Rightarrow> AgentSessionPartial \<Rightarrow> (exn + AgentSession) \<times> db" where
  "AgentSession_create e d item =
     (if \<not> truthy (su_projectId item) \<or> \<not> truthy (su_agentType item)
        then (Inl (Error ''AgentSession projectId and agentType are required''), d)
      else if \<not> isValidAgentType (the (su_agentType item))
        then (Inl (Error (''Invalid agent type: '' @ the (su_agentType item))), d)
      else
        let row = \<lparr> sr_id = fresh_id e,
                    sr_project_id = the (su_projectId item),
                    sr_task_id = or_undefined (su_taskId item),
                    sr_agent_type = the (su_agentType item),
                    sr_context_data = su_contextData item,
                    sr_last_active = now e \<rparr>
        in (case sql_insert_sessions d row of
              Inl x \<Rightarrow> (Inl x, d)
            | Inr d' \<Rightarrow> (Inr (agentSessionFromRow row), d')))"

text \<open>
  The object spread \<^verbatim>\<open>{ ...a, ...b }\<close>: the keys of \<open>a\<close>, then those of \<open>b\<close>, are
  assigned in turn to a fresh object; assigning an existing key replaces its value.
\<close>

fun assign :: "string \<Rightarrow> json \<Rightarrow> blob \<Rightarrow> blob" where
  "assign k v [] = [(k, v)]"
| "assign k v ((k', v') # kvs) = (if k = k' then (k, v) # kvs else (k', v') # assign k v kvs)"

definition spread :: "blob \<Rightarrow> blob \<Rightarrow> blob" where
  "spread a b = fold (\<lambda>kv acc. assign (fst kv) (snd kv) acc) (a @ b) []"

definition updateContext :: "env \<Rightarrow> db \<Rightarrow> string \<Rightarrow> blob \<Rightarrow> (exn + unit) \<times> db" where
  "updateContext e d i context =
     (case AgentSession_findById d i of
        None \<Rightarrow> (Inl (Error (''Agent session not found: '' @ i)), d)
      | Some session \<Rightarrow>
          let updatedContext = spread (s_contextData session) context
          in (Inr (),
              d\<lparr>agent_sessions :=
                   map (\<lambda>r. if sr_id r = i
                             then r\<lparr>sr_context_data := Some updatedContext, sr_last_active := now e\<rparr>
                             else r) (agent_sessions d)\<rparr>))"

section \<open>The document mirror (FileSync), as far as the handlers depend on it\<close>

definition fs_result :: "env \<Rightarrow> exn + unit" where
  "fs_result e = (case fs_failure e of None \<Rightarrow> Inr () | Some m \<Rightarrow> Inl (Error m))"

definition handoffMap :: "(string \<times> string) list" where
  "handoffMap = [(''requirements'', ''requirements-to-design.md''),
                 (''design'', ''design-to-tasks.md''),
                 (''tasks'', ''tasks-to-implementation.md'')]"

text \<open>
  The names every object literal inherits: \<^verbatim>\<open>handoffMap[name]\<close> is then a truthy
  non-string, the guard \<^verbatim>\<open>if (!handoffFile)\<close> lets it pass and \<^verbatim>\<open>path.join\<close> throws.
\<close>

definition object_prototype_names :: "string list" where
  "object_prototype_names =
     [''constructor'', ''__defineGetter__'', ''__defineSetter__'', ''hasOwnProperty'',
      ''__lookupGetter__'', ''__lookupSetter__'', ''isPrototypeOf'', ''propertyIsEnumerable'',
      ''toString'', ''valueOf'', ''__proto__'', ''toLocaleString'']"

definition completePhase :: "env \<Rightarrow> string \<Rightarrow> string \<Rightarrow> exn + unit" where
  "completePhase e projectId phase =
     (if \<not> sync_enabled e then Inr ()
      else (case map_of handoffMap phase of
              Some handoffFile \<Rightarrow> fs_result e
            | None \<Rightarrow>
                if phase \<in> set object_prototype_names then Inl (Error (path_type_error e phase))
                else Inl (Error (''Unknown phase: '' @ phase))))"

definition createProjectFiles :: "env \<Rightarrow> exn + unit" where
  "createProjectFiles e = (if \<not> sync_enabled e then Inr () else fs_result e)"

section \<open>Tool handlers of the server\<close>

text \<open>
  Arguments arrive as JSON values or not at all. \<open>str_arg\<close> is the check
  \<^verbatim>\<open>!x || typeof x !== 'string'\<close> (\<open>None\<close> when it rejects), \<open>obj_arg\<close> the check
  \<^verbatim>\<open>!x || typeof x !== 'object'\<close>, which arrays pass too. A result record keeps what the
  handler computes from the store and its arguments; the ISO rendering of dates and the
  path of the mirrored directory are left out.
\<close>

fun str_arg :: "json option \<Rightarrow> string option" where
  "str_arg (Some (JStr s)) = (if s = [] then None else Some s)"
| "str_arg _ = None"

fun obj_arg :: "json option \<Rightarrow> bool" where
  "obj_arg (Some (JObj kvs)) = True"
| "obj_arg (Some (JArr xs)) = True"
| "obj_arg _ = False"

record HandoffArgs =
  a_projectId :: "json option"
  a_currentPhase :: "json option"
  a_phaseDeliverables :: "json option"
  a_handoffNotes :: "json option"

record HandoffResult =
  h_checkpoint_id :: string
  h_checkpoint_phase :: string
  h_checkpoint_createdAt :: timestamp
  h_fromPhase :: string
  h_toPhase :: string
  h_deliverables :: json
  h_notes :: string
  h_project_id :: string
  h_project_name :: string
  h_project_currentPhase :: string
  h_message :: string

definition phaseOrder :: "string list" where
  "phaseOrder = [''requirements'', ''design'', ''tasks'', ''execute'']"

fun indexOf :: "string list \<Rightarrow> string \<Rightarrow> int" where
  "indexOf [] x = -1"
| "indexOf (y # ys) x = (if x = y then 0 else (let i = indexOf ys x in if i < 0 then -1 else i + 1))"

definition nextPhase_of :: "string \<Rightarrow> string" where
  "nextPhase_of currentPhase =
     (let currentIndex = indexOf phaseOrder currentPhase
      in if currentIndex < int (length phaseOrder) - 1
         then phaseOrder ! nat (currentIndex + 1)
         else ''complete'')"

text \<open>The body of the \<^verbatim>\<open>try\<close> block of \<^verbatim>\<open>handleWorkflowHandoff\<close>.\<close>

definition handoff_body ::
  "env \<Rightarrow> db \<Rightarrow> string \<Rightarrow> string \<Rightarrow> json \<Rightarrow> string \<Rightarrow> (exn + HandoffResult) \<times> db" where
  "handoff_body e d projectId currentPhase deliverables handoffNotes =
     (case Project_findById d projectId of
        None \<Rightarrow> (Inl (McpError InvalidParams (''Project not found: '' @ projectId)), d)
      | Some project \<Rightarrow>
          (case createCheckpoint e d projectId currentPhase of
             (Inl x, d1) \<Rightarrow> (Inl x, d1)
           | (Inr checkpoint, d1) \<Rightarrow>
               let nextPhase = nextPhase_of currentPhase in
               (case (if nextPhase \<noteq> ''complete''
                      then Project_update e d1 projectId
                             \<lparr> pu_name = None, pu_description = None, pu_status = None,
                               pu_currentPhase = Some nextPhase \<rparr>
                      else (Inr None, d1)) of
                  (Inl x, d2) \<Rightarrow> (Inl x, d2)
                | (Inr _, d2) \<Rightarrow>
                    (case (if sync_enabled e then completePhase e projectId currentPhase
                           else Inr ()) of
                       Inl x \<Rightarrow> (Inl x, d2)
                     | Inr _ \<Rightarrow>
                         (Inr \<lparr> h_checkpoint_id = c_id checkpoint,
                                h_checkpoint_phase = c_phase checkpoint,
                                h_checkpoint_createdAt = c_created_at checkpoint,
                                h_fromPhase = currentPhase,
                                h_toPhase = nextPhase,
                                h_deliverables = deliverables,
                                h_notes = handoffNotes,
                                h_project_id = p_id project,
                                h_project_name = p_name project,
                                h_project_currentPhase = nextPhase,
                                h_message =
                                  ''Phase '' @ [CHR 0x27] @ currentPhase @ [CHR 0x27] @ '' completed. '' @
                                  (if nextPhase = ''complete'' then ''Project complete!''
                                   else ''Ready for '' @ [CHR 0x27] @ nextPhase @ [CHR 0x27]
                                        @ '' phase.'') \<rparr>, d2)))))"

definition handleWorkflowHandoff :: "env \<Rightarrow> db \<Rightarrow> HandoffArgs \<Rightarrow> (exn + HandoffResult) \<times> db" where
  "handleWorkflowHandoff e d args =
     (case str_arg (a_projectId args) of
        None \<Rightarrow> (Inl (McpError InvalidParams ''Project ID is required and must be a string''), d)
      | Some projectId \<Rightarrow>
     (case str_arg (a_currentPhase args) of
        None \<Rightarrow> (Inl (McpError InvalidParams ''Current phase is required and must be a string''), d)
      | Some currentPhase \<Rightarrow>
     if \<not> obj_arg (a_phaseDeliverables args)
       then (Inl (McpError InvalidParams ''Phase deliverables are required and must be an object''), d)
     else
     (case str_arg (a_handoffNotes args) of
        None \<Rightarrow> (Inl (McpError InvalidParams ''Handoff notes are required and must be a string''), d)
      | Some handoffNotes \<Rightarrow>
          (case handoff_body e d projectId currentPhase (the (a_phaseDeliverables args)) handoffNotes of
             (Inl x, d') \<Rightarrow>
               (Inl (McpError InternalError (''Failed to complete handoff: '' @ message_of e x)), d')
           | (Inr r, d') \<Rightarrow> (Inr r, d')))))"

text \<open>\<^verbatim>\<open>error.message.includes(sub)\<close>\<close>

fun str_includes :: "string \<Rightarrow> string \<Rightarrow> bool" where
  "str_includes [] sub = (sub = [])"
| "str_includes (c # cs) sub = (take (length sub) (c # cs) = sub \<or> str_includes cs sub)"

record ProjectCreateArgs =
  a_name :: "json option"
  a_description :: "string option"

record ProjectCreateResult =
  pc_project :: Project
  pc_message :: string

definition handleProjectCreate ::
  "env \<Rightarrow> db \<Rightarrow> ProjectCreateArgs \<Rightarrow> (exn + ProjectCreateResult) \<times> db" where
  "handleProjectCreate e d args =
     (case str_arg (a_name args) of
        None \<Rightarrow> (Inl (McpError InvalidParams ''Project name is required and must be a string''), d)
      | Some name \<Rightarrow>
          (case (case Project_create e d
                        \<lparr> pu_name = Some name,
                          pu_description = (if truthy (a_description args)
                                            then Some (a_description args) else None),
                          pu_status = None, pu_currentPhase = None \<rparr> of
                   (Inl x, d') \<Rightarrow> (Inl x, d')
                 | (Inr project, d') \<Rightarrow>
                     (case (if sync_enabled e then createProjectFiles e else Inr ()) of
                        Inl x \<Rightarrow> (Inl x, d')
                      | Inr _ \<Rightarrow>
                          (Inr \<lparr> pc_project = project,
                                 pc_message = ''Project '' @ [CHR 0x27] @ p_name project @ [CHR 0x27]
                                              @ '' created successfully'' \<rparr>, d'))) of
             (Inl x, d') \<Rightarrow>
               if str_includes (message_of e x) ''UNIQUE constraint failed''
               then (Inl (McpError InvalidParams
                            (''Project with name '' @ [CHR 0x27] @ name @ [CHR 0x27] @ '' already exists'')), d')
               else (Inl (McpError InternalError
                            (''Failed to create project: '' @ message_of e x)), d')
           | (Inr r, d') \<Rightarrow> (Inr r, d')))"

text \<open>
  \<^verbatim>\<open>handleContextSave\<close>; its arguments are taken with the types the tool's input schema
  declares, each possibly missing.
\<close>

record ContextSaveArgs =
  cs_projectId :: "string option"
  cs_agentType :: "string option"
  cs_context :: "blob option"
  cs_summary :: "string option"

record ContextSaveResult =
  cr_id :: string
  cr_projectId :: string
  cr_agentType :: string
  cr_summary :: "string option"

definition handleContextSave ::
  "env \<Rightarrow> db \<Rightarrow> ContextSaveArgs \<Rightarrow> (exn + ContextSaveResult) \<times> db" where
  "handleContextSave e d args =
     (case AgentSession_create e d
             \<lparr> su_projectId = cs_projectId args, su_taskId = None,
               su_agentType = cs_agentType args, su_contextData = cs_context args \<rparr> of
        (Inl x, d') \<Rightarrow> (Inl x, d')
      | (Inr session, d') \<Rightarrow>
          (Inr \<lparr> cr_id = s_id session, cr_projectId = s_projectId session,
                 cr_agentType = s_agentType session, cr_summary = cs_summary args \<rparr>, d'))"

section \<open>Specification-side notions and concrete stores\<close>

text \<open>
  The dependency identifiers of a list that resolve to an existing task whose status is
  not \<^verbatim>\<open>completed\<close>, in the words of the dependency-gating rule; an identifier that
  resolves to no task is left out.
\<close>

definition incomplete_dependencies :: "db \<Rightarrow> string list \<Rightarrow> string list" where
  "incomplete_dependencies d deps =
     filter (\<lambda>i. case Task_findById d i of None \<Rightarrow> False | Some t \<Rightarrow> t_status t \<noteq> ''completed'')
       deps"

text \<open>
  A small store used to run the operations: project \<open>p1\<close> in its first phase with two
  tasks, the second depending on the first and on an identifier no task has.
\<close>

definition sdk_message :: "ErrorCode \<Rightarrow> string \<Rightarrow> string" where
  "sdk_message c m =
     ''MCP error '' @ (case c of InvalidParams \<Rightarrow> ''-32602'' | InternalError \<Rightarrow> ''-32603''
                       | MethodNotFound \<Rightarrow> ''-32601'') @ '': '' @ m"

definition ex_env :: env where
  "ex_env = \<lparr> fresh_id = ''c1'', now = 100, sync_enabled = False, fs_failure = None,
              path_type_error = (\<lambda>n. ''The path argument must be of type string''),
              mcp_message = sdk_message, max_variables = 32766 \<rparr>"

definition mk_task ::
  "string \<Rightarrow> string \<Rightarrow> string option \<Rightarrow> string \<Rightarrow> string \<Rightarrow> string list option \<Rightarrow> timestamp
   \<Rightarrow> TaskRow" where
  "mk_task i p parent ph st deps t =
     \<lparr> tr_id = i, tr_project_id = p, tr_parent_id = parent, tr_title = i, tr_description = None,
       tr_phase = ph, tr_status = st, tr_assignee_type = None, tr_priority = 1,
       tr_requirements_refs = None, tr_dependencies = deps, tr_created_at = t,
       tr_updated_at = t \<rparr>"

definition ex_project :: ProjectRow where
  "ex_project = \<lparr> p_id = ''p1'', p_name = ''p'', p_description = None, p_status = ''active'',
                  p_current_phase = ''requirements'', p_created_at = 1, p_updated_at = 1 \<rparr>"

definition ex_task2 :: TaskRow where
  "ex_task2 = mk_task ''t2'' ''p1'' None ''requirements'' ''pending'' (Some [''t1'', ''ghost'']) 3"

definition ex_db :: db where
  "ex_db = \<lparr> projects = [ex_project],
             tasks = [mk_task ''t1'' ''p1'' None ''requirements'' ''pending'' None 2, ex_task2],
             agent_sessions = [], workflow_checkpoints = [] \<rparr>"

text \<open>
  The same store with a third task whose dependency list has 32767 entries, none of them
  the identifier of a task.
\<close>

definition ghost_ids :: "string list" where
  "ghost_ids = replicate 32767 ''ghost''"

definition ex_db_many :: db where
  "ex_db_many =
     ex_db\<lparr>tasks := tasks ex_db
            @ [mk_task ''t9'' ''p1'' None ''requirements'' ''pending'' (Some ghost_ids) 4]\<rparr>"

definition no_update :: TaskPartial where
  "no_update = \<lparr> tu_title = None, tu_description = None, tu_status = None,
                 tu_assigneeType = None, tu_priority = None, tu_requirementsRefs = None,
                 tu_dependencies = None \<rparr>"

text \<open>
  A task's parent is present when the task names a parent and a task of the same list
  has that identifier.
\<close>

definition parent_present :: "Task list \<Rightarrow> Task \<Rightarrow> bool" where
  "parent_present ts t = (truthy (t_parentId t) \<and> the (t_parentId t) \<in> t_id ` set ts)"

text \<open>Children and roots that the second pass adds for a list of tasks, given the lookup.\<close>

definition kids :: "taskMap \<Rightarrow> string \<Rightarrow> Task list \<Rightarrow> string list" where
  "kids m q xs = map t_id (filter (\<lambda>t. has_parent m t \<and> the (t_parentId t) = q) xs)"

definition orphans :: "taskMap \<Rightarrow> Task list \<Rightarrow> string list" where
  "orphans m xs = map t_id (filter (\<lambda>t. \<not> has_parent m t) xs)"

text \<open>
  Every row that names a parent comes after the row of that parent: what a table built
  by \<^verbatim>\<open>create\<close> looks like. \<open>row_index\<close> is the position of an identifier in the table.
\<close>

fun parents_first :: "string list \<Rightarrow> TaskRow list \<Rightarrow> bool" where
  "parents_first seen [] = True"
| "parents_first seen (r # rs) =
     ((case tr_parent_id r of None \<Rightarrow> True | Some p \<Rightarrow> p \<in> set seen)
      \<and> parents_first (seen @ [tr_id r]) rs)"

definition row_index :: "TaskRow list \<Rightarrow> string \<Rightarrow> nat" where
  "row_index rows i = length (takeWhile (\<lambda>r. tr_id r \<noteq> i) rows)"

text \<open>Further environments, stores and arguments for running the operations.\<close>

definition ex_env_sync :: env where
  "ex_env_sync = ex_env\<lparr>sync_enabled := True\<rparr>"

text \<open>A second call within the same second as the first.\<close>

definition ex_env_same_second :: env where
  "ex_env_same_second = ex_env\<lparr>fresh_id := ''c2''\<rparr>"

text \<open>
  Project \<open>p1\<close> after a checkpoint for \<^verbatim>\<open>requirements\<close> and, within the same second, one
  for \<^verbatim>\<open>design\<close>.
\<close>

definition ex_db_two_checkpoints :: db where
  "ex_db_two_checkpoints =
     snd (createCheckpoint ex_env_same_second
            (snd (createCheckpoint ex_env ex_db ''p1'' ''requirements'')) ''p1'' ''design'')"

definition ex_env2 :: env where
  "ex_env2 = ex_env\<lparr>fresh_id := ''c2'', now := 101\<rparr>"

definition ex_db_execute :: db where
  "ex_db_execute = ex_db\<lparr>projects := [ex_project\<lparr>p_current_phase := ''execute''\<rparr>]\<rparr>"

definition handoff_args :: "string \<Rightarrow> HandoffArgs" where
  "handoff_args ph =
     \<lparr> a_projectId = Some (JStr ''p1''), a_currentPhase = Some (JStr ph),
       a_phaseDeliverables = Some (JObj [(''doc'', JStr ''x'')]),
       a_handoffNotes = Some (JStr ''done'') \<rparr>"

definition save_args :: "blob \<Rightarrow> ContextSaveArgs" where
  "save_args ctx = \<lparr> cs_projectId = Some ''p1'', cs_agentType = Some ''design'',
                     cs_context = Some ctx, cs_summary = Some ''summary'' \<rparr>"

definition ex_checkpoint :: "string \<Rightarrow> timestamp \<Rightarrow> WorkflowCheckpointRow" where
  "ex_checkpoint i t =
     \<lparr> c_id = i, c_project_id = ''p1'', c_phase = ''requirements'',
       c_checkpoint_data = \<lparr> completedTasks = [], currentTask = None, phaseDeliverables = [] \<rparr>,
       c_created_at = t \<rparr>"

definition ex_task1_done :: TaskRow where
  "ex_task1_done = mk_task ''t1'' ''p1'' None ''requirements'' ''completed'' None 2"

definition ex_db_resume :: db where
  "ex_db_resume =
     \<lparr> projects = [ex_project],
       tasks = [ex_task1_done, ex_task2, mk_task ''t3'' ''p1'' None ''design'' ''pending'' None 4],
       agent_sessions = [],
       workflow_checkpoints = [ex_checkpoint ''k1'' 5, ex_checkpoint ''k2'' 9] \<rparr>"

definition empty_db :: db where
  "empty_db = \<lparr> projects = [], tasks = [], agent_sessions = [], workflow_checkpoints = [] \<rparr>"

definition dup_args :: ProjectCreateArgs where
  "dup_args = \<lparr> a_name = Some (JStr ''dup''), a_description = None \<rparr>"

definition dup_project :: ProjectRow where
  "dup_project = \<lparr> p_id = ''c1'', p_name = ''dup'', p_description = None, p_status = ''active'',
                   p_current_phase = ''requirements'', p_created_at = 100, p_updated_at = 100 \<rparr>"

text \<open>
  Four tasks of one project: \<open>b\<close> under \<open>a\<close>, \<open>d\<close> under \<open>b\<close>, and \<open>c\<close> naming a parent
  that no task has. The priority of \<open>d\<close> puts it before its ancestors in the query's order.
\<close>

definition ex_task_d :: TaskRow where
  "ex_task_d = (mk_task ''d'' ''p1'' (Some ''b'') ''tasks'' ''pending'' None 4)\<lparr>tr_priority := 5\<rparr>"

definition ex_db_tree :: db where
  "ex_db_tree =
     \<lparr> projects = [ex_project],
       tasks = [mk_task ''a'' ''p1'' None ''tasks'' ''pending'' None 1,
                mk_task ''b'' ''p1'' (Some ''a'') ''tasks'' ''pending'' None 2,
                mk_task ''c'' ''p1'' (Some ''zz'') ''tasks'' ''pending'' None 3,
                ex_task_d],
       agent_sessions = [], workflow_checkpoints = [] \<rparr>"

definition ex_rank :: "string \<Rightarrow> nat" where
  "ex_rank i = (if i = ''b'' then 1 else if i = ''d'' then 2 else 0)"

text \<open>Two tasks that name each other as parent, as no sequence of repository calls creates.\<close>

definition ex_cycle :: "Task list" where
  "ex_cycle = map taskFromRow
     [mk_task ''x'' ''p1'' (Some ''y'') ''tasks'' ''pending'' None 1,
      mk_task ''y'' ''p1'' (Some ''x'') ''tasks'' ''pending'' None 2]"

section \<open>Properties\<close>

subsection \<open>Checkpoint immutability\<close>

text \<open>
  Claim C2. For every store, every checkpoint identifier (so in particular that of an
  existing checkpoint) and every update payload, \<^verbatim>\<open>WorkflowRepository.update\<close> fails with
  the immutability error \<^verbatim>\<open>Workflow checkpoints cannot be updated\<close>, and the store it
  leaves is the store it was given: every checkpoint row, looked up by any identifier,
  is what it was, so there is neither a partial write nor a silent success.
\<close>

theorem checkpoint_update_always_rejected:
  "fst (Workflow_update d i updates) = Inl (Error ''Workflow checkpoints cannot be updated'')
   \<and> snd (Workflow_update d i updates) = d
   \<and> Workflow_findById (snd (Workflow_update d i updates)) j = Workflow_findById d j"
  by (simp add: Workflow_update_def)

subsection \<open>Dependency gating\<close>

lemma find_distinct_key:
  "distinct (map f xs) \<Longrightarrow> x \<in> set xs \<Longrightarrow> find (\<lambda>r. f r = f x) xs = Some x"
  by (induction xs) (auto simp: image_iff)

lemma taskFromRow_status [simp]: "t_status (taskFromRow r) = tr_status r"
  by (simp add: taskFromRow_def)

lemma taskFromRow_id [simp]: "t_id (taskFromRow r) = tr_id r"
  by (simp add: taskFromRow_def)

text \<open>
  With the primary key in force, the store's count of incomplete rows is zero exactly
  when no dependency identifier resolves to an incomplete task.
\<close>

lemma incomplete_count_zero_iff:
  assumes "distinct (map tr_id (tasks d))"
  shows "(filter (\<lambda>r. tr_id r \<in> set deps \<and> tr_status r \<noteq> ''completed'') (tasks d) = [])
         = (incomplete_dependencies d deps = [])"
proof
  assume L: "filter (\<lambda>r. tr_id r \<in> set deps \<and> tr_status r \<noteq> ''completed'') (tasks d) = []"
  show "incomplete_dependencies d deps = []"
  proof (rule ccontr)
    assume "incomplete_dependencies d deps \<noteq> []"
    then obtain i where i: "i \<in> set deps"
      and "(case Task_findById d i of None \<Rightarrow> False | Some t \<Rightarrow> t_status t \<noteq> ''completed'')"
      by (auto simp: incomplete_dependencies_def filter_empty_conv)
    then obtain row where "find (\<lambda>r. tr_id r = i) (tasks d) = Some row"
      and open_row: "tr_status row \<noteq> ''completed''"
      by (auto simp: Task_findById_def split: option.splits)
    then have "row \<in> set (tasks d)" "tr_id row = i"
      by (auto simp: find_Some_iff)
    with i open_row L show False
      by (auto simp: filter_empty_conv)
  qed
next
  assume R: "incomplete_dependencies d deps = []"
  show "filter (\<lambda>r. tr_id r \<in> set deps \<and> tr_status r \<noteq> ''completed'') (tasks d) = []"
  proof (rule ccontr)
    assume "filter (\<lambda>r. tr_id r \<in> set deps \<and> tr_status r \<noteq> ''completed'') (tasks d) \<noteq> []"
    then obtain row where row: "row \<in> set (tasks d)" "tr_id row \<in> set deps"
        "tr_status row \<noteq> ''completed''"
      by (auto simp: filter_empty_conv)
    from find_distinct_key [OF assms row(1)]
    have "Task_findById d (tr_id row) = Some (taskFromRow row)"
      by (simp add: Task_findById_def)
    with row R show False
      by (auto simp: incomplete_dependencies_def filter_empty_conv)
  qed
qed

text \<open>
  Claim C3, as stated, fails for a task with more dependency identifiers than one
  statement can bind: with 32767 identifiers, each of them \<open>ghost\<close>, which resolves to no
  task (so the count of incomplete dependencies is zero), the call does not return true
  but throws.
\<close>

theorem checkDependencies_too_many_dependencies:
  "checkDependencies ex_env ex_db_many ''t9'' = Inl (Error ''too many SQL variables'')
   \<and> map_option t_dependencies (Task_findById ex_db_many ''t9'') = Some ghost_ids
   \<and> length ghost_ids = 32767
   \<and> set ghost_ids = {''ghost''}
   \<and> Task_findById ex_db_many ''ghost'' = None
   \<and> incomplete_dependencies ex_db_many ghost_ids = []"
proof -
  have len: "length ghost_ids = 32767"
    by (simp only: ghost_ids_def length_replicate)
  have elems: "set ghost_ids = {''ghost''}"
    by (simp only: ghost_ids_def set_replicate_conv_if) simp
  have found: "Task_findById ex_db_many ''t9''
      = Some (taskFromRow (mk_task ''t9'' ''p1'' None ''requirements'' ''pending''
                             (Some ghost_ids) 4))"
    by (simp add: Task_findById_def ex_db_many_def ex_db_def ex_task2_def mk_task_def)
  have deps: "t_dependencies (taskFromRow (mk_task ''t9'' ''p1'' None ''requirements'' ''pending''
                             (Some ghost_ids) 4)) = ghost_ids"
    by (simp add: taskFromRow_def mk_task_def parseJsonArray_def)
  have ghost: "Task_findById ex_db_many ''ghost'' = None"
    by (simp add: Task_findById_def ex_db_many_def ex_db_def ex_task2_def mk_task_def)
  have limit: "max_variables ex_env = 32766"
    by (simp add: ex_env_def)
  have thrown: "checkDependencies ex_env ex_db_many ''t9'' = Inl (Error ''too many SQL variables'')"
    by (simp add: checkDependencies_def found deps limit len)
  have none: "incomplete_dependencies ex_db_many ghost_ids = []"
    using elems by (simp add: incomplete_dependencies_def ghost filter_empty_conv)
  from found deps ghost thrown none len elems show ?thesis
    by simp
qed

text \<open>
  Claim C3, amended. In a store whose task identifiers are unique (the primary key), for
  every existing task whose dependency list has no more entries than one statement can
  bind: \<^verbatim>\<open>checkDependencies\<close> returns true when the dependency list is empty; otherwise it
  returns true exactly when the number of dependency identifiers that resolve to an
  existing task with a status other than \<^verbatim>\<open>completed\<close> is zero; and an identifier that
  resolves to no task is never among those counted, so it cannot block.
\<close>

theorem checkDependencies_counts_incomplete:
  assumes "distinct (map tr_id (tasks d))"
    and "Task_findById d taskId = Some task"
    and "int (length (t_dependencies task)) \<le> max_variables e"
  shows "(t_dependencies task = [] \<longrightarrow> checkDependencies e d taskId = Inr True)
       \<and> (t_dependencies task \<noteq> [] \<longrightarrow>
            checkDependencies e d taskId
            = Inr (length (incomplete_dependencies d (t_dependencies task)) = 0))
       \<and> (\<forall>i. Task_findById d i = None
              \<longrightarrow> i \<notin> set (incomplete_dependencies d (t_dependencies task)))"
proof (intro conjI impI allI)
  assume "t_dependencies task = []"
  with assms(2) show "checkDependencies e d taskId = Inr True"
    by (simp add: checkDependencies_def)
next
  assume "t_dependencies task \<noteq> []"
  with assms(2,3) incomplete_count_zero_iff [OF assms(1), of "t_dependencies task"]
  show "checkDependencies e d taskId
        = Inr (length (incomplete_dependencies d (t_dependencies task)) = 0)"
    by (simp add: checkDependencies_def Let_def)
next
  fix i
  assume "Task_findById d i = None"
  then show "i \<notin> set (incomplete_dependencies d (t_dependencies task))"
    by (simp add: incomplete_dependencies_def)
qed

text \<open>
  Beyond that bound the statement is refused, whatever the identifiers resolve to.
\<close>

lemma checkDependencies_beyond_bound:
  assumes "Task_findById d taskId = Some task"
    and "max_variables e < int (length (t_dependencies task))"
    and "t_dependencies task \<noteq> []"
  shows "checkDependencies e d taskId = Inl (Error ''too many SQL variables'')"
  using assms by (simp add: checkDependencies_def)

text \<open>
  On the example store task \<open>t2\<close> is blocked by \<open>t1\<close> alone; the dangling \<open>ghost\<close> is not
  counted, and once \<open>t1\<close> is completed \<open>t2\<close> is no longer blocked.
\<close>

theorem checkDependencies_counts_incomplete_witness:
  "checkDependencies ex_env ex_db ''t2'' = Inr False
   \<and> incomplete_dependencies ex_db (t_dependencies (taskFromRow ex_task2)) = [''t1'']
   \<and> Task_findById ex_db ''ghost'' = None
   \<and> checkDependencies ex_env
        (snd (Task_update ex_env ex_db ''t1'' (no_update\<lparr>tu_status := Some ''completed''\<rparr>))) ''t2''
      = Inr True"
proof -
  have h1: "distinct (map tr_id (tasks ex_db))"
    by code_simp
  have h2: "Task_findById ex_db ''t2'' = Some (taskFromRow ex_task2)"
    by code_simp
  have h3: "t_dependencies (taskFromRow ex_task2) \<noteq> []"
    by code_simp
  have h3': "int (length (t_dependencies (taskFromRow ex_task2))) \<le> max_variables ex_env"
    by code_simp
  have h4: "incomplete_dependencies ex_db (t_dependencies (taskFromRow ex_task2)) = [''t1'']"
    by code_simp
  have h5: "Task_findById ex_db ''ghost'' = None"
    by code_simp
  have h6: "checkDependencies ex_env
        (snd (Task_update ex_env ex_db ''t1'' (no_update\<lparr>tu_status := Some ''completed''\<rparr>))) ''t2''
      = Inr True"
    by code_simp
  from checkDependencies_counts_incomplete [OF h1 h2 h3'] h3 h4
  have "checkDependencies ex_env ex_db ''t2'' = Inr False"
    by simp
  with h4 h5 h6 show ?thesis
    by simp
qed

subsection \<open>Task updates validate before they write\<close>

text \<open>
  Claim C9. For every task update that carries a status outside
  \<open>{pending, in_progress, blocked, completed}\<close>, \<^verbatim>\<open>TaskRepository.update\<close> fails with an
  error naming the offending value, and the store is the one it was given: no field of
  the task is written, whatever other fields the same update supplies.
\<close>

theorem task_update_invalid_status_rejected:
  assumes "tu_status u = Some s" and "\<not> isValidTaskStatus s"
  shows "Task_update e d i u = (Inl (Error (''Invalid task status: '' @ s)), d)"
  using assms by (simp add: Task_update_def)

theorem task_update_invalid_status_rejected_witness:
  "Task_update ex_env ex_db ''t1'' (no_update\<lparr>tu_title := Some ''new'', tu_status := Some ''done''\<rparr>)
     = (Inl (Error ''Invalid task status: done''), ex_db)
   \<and> Task_findById ex_db ''t1''
     = Some (taskFromRow (mk_task ''t1'' ''p1'' None ''requirements'' ''pending'' None 2))"
proof -
  have h1: "tu_status (no_update\<lparr>tu_title := Some ''new'', tu_status := Some ''done''\<rparr>) = Some ''done''"
    by simp
  have h2: "\<not> isValidTaskStatus ''done''"
    by code_simp
  have h3: "Task_findById ex_db ''t1''
     = Some (taskFromRow (mk_task ''t1'' ''p1'' None ''requirements'' ''pending'' None 2))"
    by code_simp
  from task_update_invalid_status_rejected [OF h1 h2, of ex_env ex_db "''t1''"] h3
  show ?thesis
    by simp
qed

subsection \<open>Resume\<close>

lemma sort_key_hd_min:
  assumes "sort_key f xs = y # ys" and "x \<in> set xs"
  shows "f y \<le> f x"
proof -
  have "sorted (map f (sort_key f xs))"
    by (rule sorted_sort_key)
  with assms(1) have "\<forall>z \<in> set ys. f y \<le> f z"
    by simp
  moreover from assms(2) have "x \<in> set (sort_key f xs)"
    by simp
  ultimately show ?thesis
    using assms(1) by auto
qed

lemma getLatestCheckpoint_None_iff:
  "(getLatestCheckpoint d pid = None)
   = (\<forall>r \<in> set (workflow_checkpoints d). c_project_id r \<noteq> pid)"
proof -
  have "(sort_key (\<lambda>r. - c_created_at r)
           (filter (\<lambda>r. c_project_id r = pid) (workflow_checkpoints d)) = [])
        = (filter (\<lambda>r. c_project_id r = pid) (workflow_checkpoints d) = [])"
    by (metis length_sort length_0_conv)
  then show ?thesis
    by (auto simp: getLatestCheckpoint_def filter_empty_conv split: list.splits)
qed

lemma getLatestCheckpoint_Some:
  assumes "getLatestCheckpoint d pid = Some c"
  shows "c \<in> set (workflow_checkpoints d) \<and> c_project_id c = pid
         \<and> (\<forall>r \<in> set (workflow_checkpoints d).
               c_project_id r = pid \<longrightarrow> c_created_at r \<le> c_created_at c)"
proof -
  let ?xs = "filter (\<lambda>r. c_project_id r = pid) (workflow_checkpoints d)"
  from assms obtain ys where s: "sort_key (\<lambda>r. - c_created_at r) ?xs = c # ys"
    by (auto simp: getLatestCheckpoint_def workflowCheckpointFromRow_def split: list.splits)
  then have "c \<in> set (sort_key (\<lambda>r. - c_created_at r) ?xs)"
    by simp
  then have m: "c \<in> set ?xs"
    by simp
  have "\<forall>r \<in> set ?xs. c_created_at r \<le> c_created_at c"
    using sort_key_hd_min [OF s] by fastforce
  with m show ?thesis
    by auto
qed

lemma current_phase_tasks:
  assumes "ph \<noteq> []"
  shows "mset (Task_findByProject d pid (no_filter\<lparr>f_phase := Some ph\<rparr>))
       = mset (map taskFromRow
                 (filter (\<lambda>r. tr_project_id r = pid \<and> tr_phase r = ph) (tasks d)))"
proof -
  have "task_matches pid (no_filter\<lparr>f_phase := Some ph\<rparr>)
        = (\<lambda>r. tr_project_id r = pid \<and> tr_phase r = ph)"
    using assms by (auto simp: task_matches_def no_filter_def fun_eq_iff)
  then show ?thesis
    by (simp add: Task_findByProject_def)
qed

lemma status_partition:
  "mset (filter (\<lambda>t. t_status t = ''completed'') xs)
   + mset (filter (\<lambda>t. t_status t \<noteq> ''completed'') xs) = mset xs"
  by (induction xs) auto

text \<open>
  What \<^verbatim>\<open>resumeWorkflow\<close> returns, for every project identifier: it fails exactly when no
  project has it, and then with \<^verbatim>\<open>Project not found\<close>. When the project exists (its current
  phase being a non-empty label, as the schema's check and the creation default ensure),
  the call returns the project, its current phase, a checkpoint of the project with the
  greatest creation time (none exactly when the project has no checkpoint), and two task
  lists that together are exactly the project's tasks of the current phase, the first
  holding those with status \<^verbatim>\<open>completed\<close>, the second the others, with no task in both.
  Which checkpoint is returned when several share the greatest creation time is not
  said here.
\<close>

lemma resumeWorkflow_outcome:
  "(isl (fst (resumeWorkflow d pid)) = (Project_findById d pid = None))
   \<and> (Project_findById d pid = None
        \<longrightarrow> fst (resumeWorkflow d pid) = Inl (Error (''Project not found: '' @ pid)))
   \<and> (\<forall>p. Project_findById d pid = Some p \<and> p_current_phase p \<noteq> [] \<longrightarrow>
        (\<exists>st. fst (resumeWorkflow d pid) = Inr st
           \<and> ws_project st = p
           \<and> ws_currentPhase st = p_current_phase p
           \<and> (ws_checkpoint st = None)
               = (\<forall>r \<in> set (workflow_checkpoints d). c_project_id r \<noteq> pid)
           \<and> (\<forall>c. ws_checkpoint st = Some c \<longrightarrow>
                 c \<in> set (workflow_checkpoints d) \<and> c_project_id c = pid
                 \<and> (\<forall>r \<in> set (workflow_checkpoints d).
                       c_project_id r = pid \<longrightarrow> c_created_at r \<le> c_created_at c))
           \<and> mset (ws_completedTasks st) + mset (ws_pendingTasks st)
               = mset (map taskFromRow
                    (filter (\<lambda>r. tr_project_id r = pid \<and> tr_phase r = p_current_phase p)
                       (tasks d)))
           \<and> (\<forall>t \<in> set (ws_completedTasks st). t_status t = ''completed'')
           \<and> (\<forall>t \<in> set (ws_pendingTasks st). t_status t \<noteq> ''completed'')
           \<and> set (ws_completedTasks st) \<inter> set (ws_pendingTasks st) = {}))"
proof (intro conjI allI impI)
  show "isl (fst (resumeWorkflow d pid)) = (Project_findById d pid = None)"
    by (simp add: resumeWorkflow_def Let_def split: option.splits)
next
  assume "Project_findById d pid = None"
  then show "fst (resumeWorkflow d pid) = Inl (Error (''Project not found: '' @ pid))"
    by (simp add: resumeWorkflow_def)
next
  fix p
  assume "Project_findById d pid = Some p \<and> p_current_phase p \<noteq> []"
  then have found: "Project_findById d pid = Some p" and phase: "p_current_phase p \<noteq> []"
    by simp_all
  let ?all = "Task_findByProject d pid (no_filter\<lparr>f_phase := Some (p_current_phase p)\<rparr>)"
  define st where "st = \<lparr> ws_project = p, ws_currentPhase = p_current_phase p,
                 ws_checkpoint = getLatestCheckpoint d pid,
                 ws_pendingTasks = filter (\<lambda>t. t_status t \<noteq> ''completed'') ?all,
                 ws_completedTasks = filter (\<lambda>t. t_status t = ''completed'') ?all \<rparr>"
  have r: "fst (resumeWorkflow d pid) = Inr st"
    using found by (simp add: resumeWorkflow_def Let_def st_def)
  have p1: "ws_project st = p" and p2: "ws_currentPhase st = p_current_phase p"
    by (simp_all add: st_def)
  have none: "(ws_checkpoint st = None)
               = (\<forall>r \<in> set (workflow_checkpoints d). c_project_id r \<noteq> pid)"
    by (simp add: st_def getLatestCheckpoint_None_iff)
  have latest: "\<forall>c. ws_checkpoint st = Some c \<longrightarrow>
                 c \<in> set (workflow_checkpoints d) \<and> c_project_id c = pid
                 \<and> (\<forall>r \<in> set (workflow_checkpoints d).
                       c_project_id r = pid \<longrightarrow> c_created_at r \<le> c_created_at c)"
    using getLatestCheckpoint_Some [of d pid] by (simp add: st_def)
  have part: "mset (ws_completedTasks st) + mset (ws_pendingTasks st)
               = mset (map taskFromRow
                    (filter (\<lambda>r. tr_project_id r = pid \<and> tr_phase r = p_current_phase p)
                       (tasks d)))"
    using status_partition [of ?all] current_phase_tasks [OF phase, of d pid]
    by (simp add: st_def)
  have finished: "\<forall>t \<in> set (ws_completedTasks st). t_status t = ''completed''"
    and pending: "\<forall>t \<in> set (ws_pendingTasks st). t_status t \<noteq> ''completed''"
    and disjoint: "set (ws_completedTasks st) \<inter> set (ws_pendingTasks st) = {}"
    by (auto simp: st_def)
  from r p1 p2 none latest part finished pending disjoint
  show "\<exists>st. fst (resumeWorkflow d pid) = Inr st
           \<and> ws_project st = p
           \<and> ws_currentPhase st = p_current_phase p
           \<and> (ws_checkpoint st = None)
               = (\<forall>r \<in> set (workflow_checkpoints d). c_project_id r \<noteq> pid)
           \<and> (\<forall>c. ws_checkpoint st = Some c \<longrightarrow>
                 c \<in> set (workflow_checkpoints d) \<and> c_project_id c = pid
                 \<and> (\<forall>r \<in> set (workflow_checkpoints d).
                       c_project_id r = pid \<longrightarrow> c_created_at r \<le> c_created_at c))
           \<and> mset (ws_completedTasks st) + mset (ws_pendingTasks st)
               = mset (map taskFromRow
                    (filter (\<lambda>r. tr_project_id r = pid \<and> tr_phase r = p_current_phase p)
                       (tasks d)))
           \<and> (\<forall>t \<in> set (ws_completedTasks st). t_status t = ''completed'')
           \<and> (\<forall>t \<in> set (ws_pendingTasks st). t_status t \<noteq> ''completed'')
           \<and> set (ws_completedTasks st) \<inter> set (ws_pendingTasks st) = {}"
    by (intro exI [of _ st] conjI)
qed

text \<open>
  Claim C6, at two checkpoints created within one second. Creation times have the
  resolution of a second, so a checkpoint for \<^verbatim>\<open>requirements\<close> followed at once by one for
  \<^verbatim>\<open>design\<close> carry the same time; ordering by creation time then leaves the one stored
  first in front, and resume returns the \<^verbatim>\<open>requirements\<close> checkpoint, which is not the
  latest. The rest of the result is as claimed: the project, its phase, and the split of
  the tasks of the current phase.
\<close>

theorem resume_returns_earlier_of_tied_checkpoints:
  "map (\<lambda>c. (c_id c, c_phase c, c_created_at c)) (workflow_checkpoints ex_db_two_checkpoints)
     = [(''c1'', ''requirements'', 100), (''c2'', ''design'', 100)]
   \<and> map_option c_id (getLatestCheckpoint ex_db_two_checkpoints ''p1'') = Some ''c1''
   \<and> \<not> isl (fst (resumeWorkflow ex_db_two_checkpoints ''p1''))
   \<and> map_option c_phase
        (ws_checkpoint (projr (fst (resumeWorkflow ex_db_two_checkpoints ''p1''))))
     = Some ''requirements''
   \<and> ws_project (projr (fst (resumeWorkflow ex_db_two_checkpoints ''p1''))) = ex_project
   \<and> map t_id (ws_pendingTasks (projr (fst (resumeWorkflow ex_db_two_checkpoints ''p1''))))
     = [''t1'', ''t2'']
   \<and> ws_completedTasks (projr (fst (resumeWorkflow ex_db_two_checkpoints ''p1''))) = []"
  by code_simp

text \<open>
  Claim C7. For every store and project identifier, \<^verbatim>\<open>resumeWorkflow\<close> leaves the store
  exactly as it found it, and calling it again on the store it left returns the same
  outcome, timestamps included.
\<close>

theorem resume_read_only:
  "snd (resumeWorkflow d pid) = d
   \<and> resumeWorkflow (snd (resumeWorkflow d pid)) pid = resumeWorkflow d pid"
  by (simp add: resumeWorkflow_def Let_def split: option.splits)

theorem resume_read_only_witness:
  "snd (resumeWorkflow ex_db_resume ''p1'') = ex_db_resume
   \<and> fst (resumeWorkflow (snd (resumeWorkflow ex_db_resume ''p1'')) ''p1'')
     = Inr \<lparr> ws_project = ex_project, ws_currentPhase = ''requirements'',
             ws_checkpoint = Some (ex_checkpoint ''k2'' 9),
             ws_pendingTasks = [taskFromRow ex_task2],
             ws_completedTasks = [taskFromRow ex_task1_done] \<rparr>"
proof -
  have run: "fst (resumeWorkflow ex_db_resume ''p1'')
     = Inr \<lparr> ws_project = ex_project, ws_currentPhase = ''requirements'',
             ws_checkpoint = Some (ex_checkpoint ''k2'' 9),
             ws_pendingTasks = [taskFromRow ex_task2],
             ws_completedTasks = [taskFromRow ex_task1_done] \<rparr>"
    by code_simp
  with resume_read_only [of ex_db_resume "''p1''"] show ?thesis
    by simp
qed

subsection \<open>Project creation and duplicate names\<close>

lemma str_arg_Some: "str_arg a = Some s \<Longrightarrow> a = Some (JStr s) \<and> s \<noteq> []"
  by (cases a rule: str_arg.cases) (auto split: if_splits)

lemma unique_messages:
  "str_includes ''UNIQUE constraint failed: projects.id'' ''UNIQUE constraint failed''"
  "str_includes ''UNIQUE constraint failed: projects.name'' ''UNIQUE constraint failed''"
  by code_simp+

lemma creation_defaults_valid:
  "isValidProjectStatus ''active''" "isValidProjectPhase ''requirements''"
  by code_simp+

lemma Project_create_duplicate:
  assumes "n \<noteq> []" and "n \<in> set (map p_name (projects d))"
  shows "\<exists>m. Project_create e d
              \<lparr> pu_name = Some n, pu_description = ds, pu_status = None, pu_currentPhase = None \<rparr>
            = (Inl (Error m), d) \<and> str_includes m ''UNIQUE constraint failed''"
  using assms unique_messages creation_defaults_valid
  by (simp add: Project_create_def sql_insert_projects_def Let_def)

text \<open>
  Every failure of \<^verbatim>\<open>handleProjectCreate\<close> is the validation error, the constraint error or
  the generic one, which carries another code and another message.
\<close>

lemma handleProjectCreate_errors:
  assumes "fst (handleProjectCreate e d args) = Inl x"
  shows "x = McpError InvalidParams ''Project name is required and must be a string''
       \<or> (\<exists>n. x = McpError InvalidParams
                   (''Project with name '' @ [CHR 0x27] @ n @ [CHR 0x27] @ '' already exists''))
       \<or> (\<exists>m. x = McpError InternalError (''Failed to create project: '' @ m))"
proof (cases "str_arg (a_name args)")
  case None
  with assms show ?thesis
    by (simp add: handleProjectCreate_def)
next
  case (Some n)
  define inner where "inner =
    (case Project_create e d
                        \<lparr> pu_name = Some n,
                          pu_description = (if truthy (a_description args)
                                            then Some (a_description args) else None),
                          pu_status = None, pu_currentPhase = None \<rparr> of
                   (Inl x, d') \<Rightarrow> (Inl x, d')
                 | (Inr project, d') \<Rightarrow>
                     (case (if sync_enabled e then createProjectFiles e else Inr ()) of
                        Inl x \<Rightarrow> (Inl x, d')
                      | Inr _ \<Rightarrow>
                          (Inr \<lparr> pc_project = project,
                                 pc_message = ''Project '' @ [CHR 0x27] @ p_name project @ [CHR 0x27]
                                              @ '' created successfully'' \<rparr>, d')))"
  have h: "handleProjectCreate e d args =
      (case inner of
         (Inl x, d') \<Rightarrow>
               if str_includes (message_of e x) ''UNIQUE constraint failed''
               then (Inl (McpError InvalidParams
                            (''Project with name '' @ [CHR 0x27] @ n @ [CHR 0x27] @ '' already exists'')), d')
               else (Inl (McpError InternalError
                            (''Failed to create project: '' @ message_of e x)), d')
           | (Inr r, d') \<Rightarrow> (Inr r, d'))"
    using Some unfolding handleProjectCreate_def inner_def by simp
  obtain r d' where i: "inner = (r, d')"
    by (cases inner)
  show ?thesis
  proof (cases r)
    case (Inl y)
    with assms h i show ?thesis
      by (cases "str_includes (message_of e y) ''UNIQUE constraint failed''") auto
  next
    case (Inr v)
    with assms h i show ?thesis
      by simp
  qed
qed

text \<open>
  Claim C8. Whenever \<^verbatim>\<open>handleProjectCreate\<close> is called with a name that a project of the
  store already has, it fails with the constraint error \<^verbatim>\<open>Project with name '...' already
  exists\<close> (code \<^verbatim>\<open>InvalidParams\<close>), which is not the generic failure
  \<^verbatim>\<open>Failed to create project: ...\<close> (code \<^verbatim>\<open>InternalError\<close>); the store is left as it was, so
  the existing project is found by name and by identifier exactly as before.
\<close>

theorem duplicate_project_name_rejected:
  assumes "str_arg (a_name args) = Some n" and "n \<in> set (map p_name (projects d))"
  shows "handleProjectCreate e d args
         = (Inl (McpError InvalidParams
                   (''Project with name '' @ [CHR 0x27] @ n @ [CHR 0x27] @ '' already exists'')), d)
       \<and> fst (handleProjectCreate e d args)
           \<noteq> Inl (McpError InternalError (''Failed to create project: '' @ m))
       \<and> Project_findByName (snd (handleProjectCreate e d args)) n = Project_findByName d n
       \<and> Project_findById (snd (handleProjectCreate e d args)) i = Project_findById d i"
proof -
  from assms(1) have "n \<noteq> []"
    by (auto dest: str_arg_Some)
  from Project_create_duplicate [OF this assms(2)]
  obtain msg where "Project_create e d
         \<lparr> pu_name = Some n,
           pu_description = (if truthy (a_description args) then Some (a_description args) else None),
           pu_status = None, pu_currentPhase = None \<rparr>
       = (Inl (Error msg), d)" and "str_includes msg ''UNIQUE constraint failed''"
    by blast
  then have "handleProjectCreate e d args
         = (Inl (McpError InvalidParams
                   (''Project with name '' @ [CHR 0x27] @ n @ [CHR 0x27] @ '' already exists'')), d)"
    using assms(1) by (simp add: handleProjectCreate_def)
  then show ?thesis
    by simp
qed

text \<open>
  Creating \<open>dup\<close> in an empty store and then once more: the second call fails with the
  constraint error and the first project is still there, unchanged.
\<close>

theorem duplicate_project_name_rejected_witness:
  "snd (handleProjectCreate ex_env empty_db dup_args) = empty_db\<lparr>projects := [dup_project]\<rparr>
   \<and> handleProjectCreate ex_env2 (empty_db\<lparr>projects := [dup_project]\<rparr>) dup_args
      = (Inl (McpError InvalidParams ''Project with name 'dup' already exists''),
         empty_db\<lparr>projects := [dup_project]\<rparr>)
   \<and> Project_findByName
        (snd (handleProjectCreate ex_env2 (empty_db\<lparr>projects := [dup_project]\<rparr>) dup_args)) ''dup''
      = Some dup_project"
proof -
  have first: "snd (handleProjectCreate ex_env empty_db dup_args) = empty_db\<lparr>projects := [dup_project]\<rparr>"
    by code_simp
  have h1: "str_arg (a_name dup_args) = Some ''dup''"
    by code_simp
  have h2: "''dup'' \<in> set (map p_name (projects (empty_db\<lparr>projects := [dup_project]\<rparr>)))"
    by code_simp
  have h3: "Project_findByName (empty_db\<lparr>projects := [dup_project]\<rparr>) ''dup'' = Some dup_project"
    by code_simp
  from duplicate_project_name_rejected [OF h1 h2, of ex_env2] first h3
  show ?thesis
    by simp
qed

subsection \<open>Phase handoff\<close>

lemma nextPhase_cases:
  "nextPhase_of l =
     (if l = ''requirements'' then ''design'' else if l = ''design'' then ''tasks''
      else if l = ''tasks'' then ''execute'' else if l = ''execute'' then ''complete''
      else ''requirements'')"
  by (simp add: nextPhase_of_def phaseOrder_def Let_def)

lemma nextPhase_unknown:
  assumes "label \<notin> set phaseOrder"
  shows "nextPhase_of label = ''requirements''"
  using assms by (simp add: nextPhase_cases phaseOrder_def)

lemma nextPhase_valid:
  "nextPhase_of l \<noteq> ''complete'' \<Longrightarrow> isValidProjectPhase (nextPhase_of l)"
  by (simp add: nextPhase_cases isValidProjectPhase_def split: if_splits)

lemma handoffMap_unknown:
  assumes "label \<notin> set phaseOrder"
  shows "map_of handoffMap label = None"
  using assms by (simp add: handoffMap_def phaseOrder_def)

lemma Project_findById_Some:
  "Project_findById d i = Some p \<Longrightarrow> p \<in> set (projects d) \<and> p_id p = i"
  by (auto simp: Project_findById_def projectFromRow_def find_Some_iff)

lemma find_map_keyed:
  assumes "\<And>r. key (g r) = key r"
  shows "find (\<lambda>r. key r = i) (map (\<lambda>r. if key r = i then g r else r) xs)
         = map_option g (find (\<lambda>r. key r = i) xs)"
  using assms by (induction xs) auto

lemma createCheckpoint_ok:
  assumes "pid \<noteq> []" and "label \<noteq> []"
    and "pid \<in> set (map p_id (projects d))"
    and "fresh_id e \<notin> set (map c_id (workflow_checkpoints d))"
  shows "\<exists>c. createCheckpoint e d pid label
              = (Inr c, d\<lparr>workflow_checkpoints := workflow_checkpoints d @ [c]\<rparr>)
            \<and> c_id c = fresh_id e \<and> c_project_id c = pid \<and> c_phase c = label
            \<and> c_created_at c = now e"
  using assms
  by (simp add: createCheckpoint_def Workflow_create_def sql_insert_checkpoints_def Let_def
      workflowCheckpointFromRow_def)

lemma Project_update_phase:
  assumes "Project_findById d pid = Some p" and "isValidProjectPhase ph"
  shows "\<exists>d'. Project_update e d pid
           \<lparr> pu_name = None, pu_description = None, pu_status = None, pu_currentPhase = Some ph \<rparr>
         = (Inr (Some (p\<lparr>p_current_phase := ph, p_updated_at := now e\<rparr>)), d')
         \<and> Project_findById d' pid = Some (p\<lparr>p_current_phase := ph, p_updated_at := now e\<rparr>)
         \<and> workflow_checkpoints d' = workflow_checkpoints d"
proof -
  let ?u = "\<lparr> pu_name = None, pu_description = None, pu_status = None, pu_currentPhase = Some ph \<rparr>"
  let ?d' = "d\<lparr>projects := map (\<lambda>r. if p_id r = pid then project_set (now e) ?u r else r) (projects d)\<rparr>"
  from assms(1) have f: "find (\<lambda>r. p_id r = pid) (projects d) = Some p"
    by (simp add: Project_findById_def projectFromRow_def)
  then have "filter (\<lambda>r. p_id r = pid) (projects d) \<noteq> []"
    by (auto simp: find_Some_iff filter_empty_conv)
  then have len: "length (filter (\<lambda>r. p_id r = pid) (projects d)) \<noteq> 0"
    by simp
  have "p_id (project_set (now e) ?u r) = p_id r" for r
    by (simp add: project_set_def)
  from find_map_keyed [of p_id "project_set (now e) ?u", OF this]
  have "Project_findById ?d' pid = Some (project_set (now e) ?u p)"
    using f by (simp add: Project_findById_def projectFromRow_def)
  moreover have "project_set (now e) ?u p = p\<lparr>p_current_phase := ph, p_updated_at := now e\<rparr>"
    by (simp add: project_set_def)
  ultimately have g: "Project_findById ?d' pid = Some (p\<lparr>p_current_phase := ph, p_updated_at := now e\<rparr>)"
    by simp
  have "Project_update e d pid ?u = (Inr (Project_findById ?d' pid), ?d')"
    using assms(2) len by (simp add: Project_update_def sql_update_projects_def)
  with g show ?thesis
    by auto
qed

text \<open>
  A handoff whose next phase is not \<^verbatim>\<open>complete\<close>, on an existing project and with an unused
  checkpoint identifier: the checkpoint is appended, the project's phase becomes the next
  phase, and the outcome is decided by the mirror step alone.
\<close>

lemma handoff_body_advance:
  assumes "pid \<noteq> []" and "label \<noteq> []"
    and "Project_findById d pid = Some p"
    and "fresh_id e \<notin> set (map c_id (workflow_checkpoints d))"
    and "nextPhase_of label \<noteq> ''complete''"
  shows "\<exists>c r d'. handoff_body e d pid label dl hnotes = (r, d')
      \<and> workflow_checkpoints d' = workflow_checkpoints d @ [c]
      \<and> c_id c = fresh_id e \<and> c_project_id c = pid \<and> c_phase c = label
      \<and> Project_findById d' pid
          = Some (p\<lparr>p_current_phase := nextPhase_of label, p_updated_at := now e\<rparr>)
      \<and> (case (if sync_enabled e then completePhase e pid label else Inr ()) of
            Inl x \<Rightarrow> r = Inl x
          | Inr u \<Rightarrow> (\<exists>res. r = Inr res \<and> h_toPhase res = nextPhase_of label
                         \<and> h_fromPhase res = label \<and> h_checkpoint_phase res = label
                         \<and> h_checkpoint_id res = fresh_id e))"
proof -
  from assms(3) have mem: "pid \<in> set (map p_id (projects d))"
    by (auto dest: Project_findById_Some)
  from createCheckpoint_ok [OF assms(1,2) mem assms(4)]
  obtain c where c: "createCheckpoint e d pid label
              = (Inr c, d\<lparr>workflow_checkpoints := workflow_checkpoints d @ [c]\<rparr>)"
     "c_id c = fresh_id e" "c_project_id c = pid" "c_phase c = label"
    by blast
  let ?d1 = "d\<lparr>workflow_checkpoints := workflow_checkpoints d @ [c]\<rparr>"
  have "Project_findById ?d1 pid = Some p"
    using assms(3) by (simp add: Project_findById_def)
  from Project_update_phase [OF this nextPhase_valid [OF assms(5)], of e]
  obtain d2 where d2: "Project_update e ?d1 pid
           \<lparr> pu_name = None, pu_description = None, pu_status = None,
             pu_currentPhase = Some (nextPhase_of label) \<rparr>
         = (Inr (Some (p\<lparr>p_current_phase := nextPhase_of label, p_updated_at := now e\<rparr>)), d2)"
     "Project_findById d2 pid = Some (p\<lparr>p_current_phase := nextPhase_of label, p_updated_at := now e\<rparr>)"
     "workflow_checkpoints d2 = workflow_checkpoints ?d1"
    by blast
  show ?thesis
    using assms(3,5) c d2
    by (cases "if sync_enabled e then completePhase e pid label else Inr ()")
       (simp_all add: handoff_body_def Let_def)
qed

text \<open>
  The phases before the last: the project moves to the following element of the sequence.
\<close>

lemma handoff_advances_phase:
  assumes "str_arg (a_projectId args) = Some pid"
    and "str_arg (a_currentPhase args) = Some label"
    and "label \<in> {''requirements'', ''design'', ''tasks''}"
    and "obj_arg (a_phaseDeliverables args)"
    and "str_arg (a_handoffNotes args) = Some hnotes"
    and "Project_findById d pid = Some p"
    and "fresh_id e \<notin> set (map c_id (workflow_checkpoints d))"
  shows "Project_findById (snd (handleWorkflowHandoff e d args)) pid
         = Some (p\<lparr>p_current_phase := nextPhase_of label, p_updated_at := now e\<rparr>)
       \<and> nextPhase_of label
         = (if label = ''requirements'' then ''design''
            else if label = ''design'' then ''tasks'' else ''execute'')"
proof -
  from assms(1,2) have ne: "pid \<noteq> []" "label \<noteq> []"
    by (auto dest: str_arg_Some)
  from assms(3) have nc: "nextPhase_of label \<noteq> ''complete''"
    by (auto simp: nextPhase_cases)
  from handoff_body_advance [OF ne assms(6,7) nc, of "the (a_phaseDeliverables args)" hnotes]
  obtain r d' where "handoff_body e d pid label (the (a_phaseDeliverables args)) hnotes = (r, d')"
      "Project_findById d' pid
          = Some (p\<lparr>p_current_phase := nextPhase_of label, p_updated_at := now e\<rparr>)"
    by blast
  then have "Project_findById (snd (handleWorkflowHandoff e d args)) pid
         = Some (p\<lparr>p_current_phase := nextPhase_of label, p_updated_at := now e\<rparr>)"
    using assms(1,2,4,5) by (simp add: handleWorkflowHandoff_def split: sum.splits)
  moreover from assms(3) have "nextPhase_of label
         = (if label = ''requirements'' then ''design''
            else if label = ''design'' then ''tasks'' else ''execute'')"
    by (auto simp: nextPhase_cases)
  ultimately show ?thesis
    by simp
qed

text \<open>
  Claim C1, at the last phase. Declaring \<^verbatim>\<open>execute\<close> for an active project in phase
  \<^verbatim>\<open>execute\<close>: the next phase is \<^verbatim>\<open>complete\<close> and the phase is left unchanged, but the
  project row is not written at all, so its status is still \<^verbatim>\<open>active\<close>, not
  \<^verbatim>\<open>completed\<close>. With the mirror switched on the call moreover ends in an error once the
  checkpoint is stored, the mirror knowing no handoff document for \<^verbatim>\<open>execute\<close>. A handoff
  declared for \<^verbatim>\<open>requirements\<close> does move the project to \<^verbatim>\<open>design\<close>.
\<close>

theorem handoff_execute_leaves_status_active:
  "\<not> isl (fst (handleWorkflowHandoff ex_env ex_db_execute (handoff_args ''execute'')))
   \<and> h_toPhase (projr (fst (handleWorkflowHandoff ex_env ex_db_execute (handoff_args ''execute''))))
       = ''complete''
   \<and> projects (snd (handleWorkflowHandoff ex_env ex_db_execute (handoff_args ''execute'')))
       = projects ex_db_execute
   \<and> map_option p_status
        (Project_findById
           (snd (handleWorkflowHandoff ex_env ex_db_execute (handoff_args ''execute''))) ''p1'')
       = Some ''active''
   \<and> map_option p_current_phase
        (Project_findById
           (snd (handleWorkflowHandoff ex_env ex_db_execute (handoff_args ''execute''))) ''p1'')
       = Some ''execute''
   \<and> fst (handleWorkflowHandoff ex_env_sync ex_db_execute (handoff_args ''execute''))
       = Inl (McpError InternalError ''Failed to complete handoff: Unknown phase: execute'')
   \<and> map_option p_status
        (Project_findById
           (snd (handleWorkflowHandoff ex_env_sync ex_db_execute (handoff_args ''execute''))) ''p1'')
       = Some ''active''
   \<and> map_option p_current_phase
        (Project_findById
           (snd (handleWorkflowHandoff ex_env ex_db (handoff_args ''requirements''))) ''p1'')
       = Some ''design''"
  by code_simp

text \<open>
  What a handoff does with a declared phase outside the sequence, on an existing project
  and with well-formed arguments: the label is not checked before the store is written.
  A checkpoint carrying the label is appended and the project's current phase becomes
  \<^verbatim>\<open>requirements\<close>; only then, and only where the mirror is on, the mirror step throws.
\<close>

lemma handoff_unknown_phase_effects:
  assumes "str_arg (a_projectId args) = Some pid"
    and "str_arg (a_currentPhase args) = Some label"
    and "label \<notin> set phaseOrder"
    and "obj_arg (a_phaseDeliverables args)"
    and "str_arg (a_handoffNotes args) = Some hnotes"
    and "Project_findById d pid = Some p"
    and "fresh_id e \<notin> set (map c_id (workflow_checkpoints d))"
  shows "\<exists>c r d'. handleWorkflowHandoff e d args = (r, d')
      \<and> workflow_checkpoints d' = workflow_checkpoints d @ [c]
      \<and> c_id c = fresh_id e \<and> c_project_id c = pid \<and> c_phase c = label
      \<and> Project_findById d' pid
          = Some (p\<lparr>p_current_phase := ''requirements'', p_updated_at := now e\<rparr>)
      \<and> (if sync_enabled e
         then r = Inl (McpError InternalError
                        (''Failed to complete handoff: '' @
                         (if label \<in> set object_prototype_names then path_type_error e label
                          else ''Unknown phase: '' @ label)))
         else (\<exists>res. r = Inr res \<and> h_fromPhase res = label \<and> h_toPhase res = ''requirements''))"
proof -
  from assms(1,2) have ne: "pid \<noteq> []" "label \<noteq> []"
    by (auto dest: str_arg_Some)
  have np: "nextPhase_of label = ''requirements''"
    by (rule nextPhase_unknown [OF assms(3)])
  then have nc: "nextPhase_of label \<noteq> ''complete''"
    by simp
  from handoff_body_advance [OF ne assms(6,7) nc, of "the (a_phaseDeliverables args)" hnotes]
  obtain c r d' where b: "handoff_body e d pid label (the (a_phaseDeliverables args)) hnotes = (r, d')"
      "workflow_checkpoints d' = workflow_checkpoints d @ [c]"
      "c_id c = fresh_id e" "c_project_id c = pid" "c_phase c = label"
      "Project_findById d' pid
          = Some (p\<lparr>p_current_phase := nextPhase_of label, p_updated_at := now e\<rparr>)"
      "(case (if sync_enabled e then completePhase e pid label else Inr ()) of
            Inl x \<Rightarrow> r = Inl x
          | Inr u \<Rightarrow> (\<exists>res. r = Inr res \<and> h_toPhase res = nextPhase_of label
                         \<and> h_fromPhase res = label \<and> h_checkpoint_phase res = label
                         \<and> h_checkpoint_id res = fresh_id e))"
    by blast
  have cp: "sync_enabled e \<Longrightarrow> completePhase e pid label
        = Inl (Error (if label \<in> set object_prototype_names then path_type_error e label
                          else ''Unknown phase: '' @ label))"
    using handoffMap_unknown [OF assms(3)] by (simp add: completePhase_def)
  have h: "handleWorkflowHandoff e d args
        = (case r of
             Inl x \<Rightarrow> Inl (McpError InternalError (''Failed to complete handoff: '' @ message_of e x))
           | Inr res \<Rightarrow> Inr res, d')"
    using assms(1,2,4,5) b(1) by (simp add: handleWorkflowHandoff_def split: sum.splits)
  show ?thesis
  proof (cases "sync_enabled e")
    case True
    with b(7) cp have "r = Inl (Error (if label \<in> set object_prototype_names
                                       then path_type_error e label
                                       else ''Unknown phase: '' @ label))"
      by simp
    with h b np True show ?thesis
      by simp
  next
    case False
    with b(7) obtain res where "r = Inr res" "h_toPhase res = nextPhase_of label"
        "h_fromPhase res = label"
      by auto
    with h b np False show ?thesis
      by simp
  qed
qed

text \<open>
  Claim C10, at the unknown label \<open>bogus\<close> for a project in phase \<^verbatim>\<open>execute\<close>. With the
  document mirror on, as the server constructs it, the call ends in an error that names
  the label, so the label is rejected after all, but only after the checkpoint labelled
  \<open>bogus\<close> is stored and the project is set back to \<^verbatim>\<open>requirements\<close>. With the mirror off
  the same call succeeds and reports \<^verbatim>\<open>requirements\<close> as the next phase.
\<close>

theorem handoff_unknown_phase_rejected_by_mirror:
  "fst (handleWorkflowHandoff ex_env_sync ex_db_execute (handoff_args ''bogus''))
     = Inl (McpError InternalError ''Failed to complete handoff: Unknown phase: bogus'')
   \<and> map c_phase
        (workflow_checkpoints
           (snd (handleWorkflowHandoff ex_env_sync ex_db_execute (handoff_args ''bogus''))))
     = [''bogus'']
   \<and> map_option p_current_phase
        (Project_findById
           (snd (handleWorkflowHandoff ex_env_sync ex_db_execute (handoff_args ''bogus''))) ''p1'')
     = Some ''requirements''
   \<and> \<not> isl (fst (handleWorkflowHandoff ex_env ex_db_execute (handoff_args ''bogus'')))
   \<and> h_toPhase (projr (fst (handleWorkflowHandoff ex_env ex_db_execute (handoff_args ''bogus''))))
     = ''requirements''
   \<and> map_option p_current_phase
        (Project_findById
           (snd (handleWorkflowHandoff ex_env ex_db_execute (handoff_args ''bogus''))) ''p1'')
     = Some ''requirements''"
  by code_simp

subsection \<open>Context saves\<close>

lemma map_of_assign: "map_of (assign k v kvs) = (map_of kvs)(k \<mapsto> v)"
  by (induction kvs) (auto simp: fun_eq_iff)

lemma map_of_fold_assign:
  "map_of (fold (\<lambda>kv acc. assign (fst kv) (snd kv) acc) xs acc) = map_of acc ++ map_of (rev xs)"
proof (induction xs arbitrary: acc)
  case Nil
  show ?case by simp
next
  case (Cons x xs)
  have "map_of (fold (\<lambda>kv acc. assign (fst kv) (snd kv) acc) (x # xs) acc)
        = map_of (assign (fst x) (snd x) acc) ++ map_of (rev xs)"
    using Cons.IH [of "assign (fst x) (snd x) acc"] by simp
  also have "\<dots> = (map_of acc)(fst x \<mapsto> snd x) ++ map_of (rev xs)"
    by (simp only: map_of_assign)
  also have "\<dots> = map_of acc ++ map_of (rev (x # xs))"
    by (cases x) (auto simp: fun_eq_iff map_add_def split: option.splits)
  finally show ?case .
qed

text \<open>
  The spread is the key union in which the second blob wins (within one blob the last
  entry of a key counts, as when the stored text is parsed).
\<close>

lemma spread_lookup: "map_of (spread a b) = map_of (rev a) ++ map_of (rev b)"
  by (simp add: spread_def map_of_fold_assign)

text \<open>\<^verbatim>\<open>updateContext\<close>, which the save handler does not call, does merge.\<close>

lemma updateContext_merges:
  assumes "AgentSession_findById d i = Some s"
  shows "map_option s_contextData (AgentSession_findById (snd (updateContext e d i ctx)) i)
         = Some (spread (s_contextData s) ctx)"
proof -
  let ?g = "\<lambda>r. r\<lparr>sr_context_data := Some (spread (s_contextData s) ctx), sr_last_active := now e\<rparr>"
  let ?rows = "map (\<lambda>r. if sr_id r = i then ?g r else r) (agent_sessions d)"
  from assms obtain row where row: "find (\<lambda>r. sr_id r = i) (agent_sessions d) = Some row"
    by (auto simp: AgentSession_findById_def)
  have "sr_id (?g r) = sr_id r" for r :: AgentSessionRow
    by simp
  from find_map_keyed [where key = sr_id and g = ?g and i = i and xs = "agent_sessions d", OF this]
  have found: "find (\<lambda>r. sr_id r = i) ?rows = Some (?g row)"
    by (simp add: row)
  have "snd (updateContext e d i ctx) = d\<lparr>agent_sessions := ?rows\<rparr>"
    using assms by (simp add: updateContext_def Let_def)
  then have "AgentSession_findById (snd (updateContext e d i ctx)) i
             = Some (agentSessionFromRow (?g row))"
    using found by (simp add: AgentSession_findById_def)
  then show ?thesis
    by (simp add: agentSessionFromRow_def parseJsonObject_def)
qed

text \<open>
  Claim C4, at the scenario the specification gives. Saving \<open>{a: 1}\<close> and then \<open>{b: 2}\<close>
  for the same project and agent type through \<^verbatim>\<open>handleContextSave\<close> leaves two sessions, one
  per save, each holding the blob it was given; the session found for the pair holds
  \<open>{b: 2}\<close> alone and the contexts loaded for the project give \<open>{a: 1}\<close> alone for the
  agent type, where a merge would hold \<open>{a: 1, b: 2}\<close>.
\<close>

theorem context_saved_twice_is_not_merged:
  "map sr_context_data
     (agent_sessions
        (snd (handleContextSave ex_env2
                (snd (handleContextSave ex_env ex_db (save_args [(''a'', JNum 1)])))
                (save_args [(''b'', JNum 2)]))))
     = [Some [(''a'', JNum 1)], Some [(''b'', JNum 2)]]
   \<and> map_option s_contextData
       (findByProjectAndType
          (snd (handleContextSave ex_env2
                  (snd (handleContextSave ex_env ex_db (save_args [(''a'', JNum 1)])))
                  (save_args [(''b'', JNum 2)]))) ''p1'' ''design'')
     = Some [(''b'', JNum 2)]
   \<and> getAllContexts
        (snd (handleContextSave ex_env2
                (snd (handleContextSave ex_env ex_db (save_args [(''a'', JNum 1)])))
                (save_args [(''b'', JNum 2)]))) ''p1'' ''design''
     = Some [(''a'', JNum 1)]
   \<and> spread [(''a'', JNum 1)] [(''b'', JNum 2)] = [(''a'', JNum 1), (''b'', JNum 2)]"
  by code_simp

subsection \<open>Task tree\<close>

lemma fold_set_None:
  "(fold set_node ts m0 i = None) = (m0 i = None \<and> i \<notin> t_id ` set ts)"
  by (induction ts arbitrary: m0) (auto simp: set_node_def)

lemma fold_set_Some:
  "fold set_node ts m0 i = Some n
   \<Longrightarrow> (m0 i = Some n \<and> i \<notin> t_id ` set ts)
       \<or> (children n = [] \<and> t_id (n_task n) = i \<and> n_task n \<in> set ts)"
proof (induction ts arbitrary: m0)
  case Nil
  then show ?case by simp
next
  case (Cons a ts)
  from Cons.prems have "fold set_node ts (set_node a m0) i = Some n"
    by simp
  from Cons.IH [OF this]
  show ?case by (auto simp: set_node_def split: if_splits)
qed

lemma first_pass_None: "(first_pass ts i = None) = (i \<notin> t_id ` set ts)"
  by (simp add: first_pass_def fold_set_None)

lemma first_pass_Some:
  "first_pass ts i = Some n \<Longrightarrow> children n = [] \<and> t_id (n_task n) = i \<and> n_task n \<in> set ts"
  using fold_set_Some [of ts Map.empty i n] by (simp add: first_pass_def)

lemma has_parent_first_pass: "has_parent (first_pass ts) t = parent_present ts t"
  by (auto simp: has_parent_def parent_present_def first_pass_None)

lemma has_parent_cong:
  "(\<And>q. (m1 q = None) = (m q = None)) \<Longrightarrow> has_parent m1 = has_parent m"
  by (auto simp: has_parent_def fun_eq_iff)

lemma fold_attach:
  "fold attach xs (m, rootTasks)
   = (\<lambda>q. map_option (\<lambda>n. n\<lparr>children := children n @ kids m q xs\<rparr>) (m q),
      rootTasks @ orphans m xs)"
proof (induction xs arbitrary: m rootTasks)
  case Nil
  show ?case
    by (simp add: kids_def orphans_def fun_eq_iff option.map_ident)
next
  case (Cons x xs)
  show ?case
  proof (cases "has_parent m x")
    case True
    define p where "p = the (t_parentId x)"
    from True obtain parent where par: "m p = Some parent"
      by (auto simp: has_parent_def p_def)
    define m1 where "m1 = m(p \<mapsto> parent\<lparr>children := children parent @ [t_id x]\<rparr>)"
    have step: "attach x (m, rootTasks) = (m1, rootTasks)"
      using True par by (simp add: attach_def Let_def p_def m1_def)
    have hp: "has_parent m1 = has_parent m"
      by (rule has_parent_cong) (simp add: m1_def par)
    have k: "kids m1 q xs = kids m q xs" for q
      by (simp add: kids_def hp)
    have o: "orphans m1 xs = orphans m xs"
      by (simp add: orphans_def hp)
    have kp: "kids m p (x # xs) = t_id x # kids m p xs"
      using True by (simp add: kids_def p_def)
    have kq: "q \<noteq> p \<Longrightarrow> kids m q (x # xs) = kids m q xs" for q
      by (auto simp: kids_def p_def)
    have oo: "orphans m (x # xs) = orphans m xs"
      using True by (simp add: orphans_def)
    have "(\<lambda>q. map_option (\<lambda>n. n\<lparr>children := children n @ kids m1 q xs\<rparr>) (m1 q))
        = (\<lambda>q. map_option (\<lambda>n. n\<lparr>children := children n @ kids m q (x # xs)\<rparr>) (m q))"
    proof
      fix q
      show "map_option (\<lambda>n. n\<lparr>children := children n @ kids m1 q xs\<rparr>) (m1 q)
          = map_option (\<lambda>n. n\<lparr>children := children n @ kids m q (x # xs)\<rparr>) (m q)"
      proof (cases "q = p")
        case True
        have "m1 p = Some (parent\<lparr>children := children parent @ [t_id x]\<rparr>)"
          by (simp add: m1_def)
        with True show ?thesis by (simp add: par k kp)
      next
        case False
        then have "m1 q = m q"
          by (simp add: m1_def)
        with False show ?thesis by (simp add: k kq)
      qed
    qed
    then show ?thesis
      using Cons.IH [of m1 rootTasks] step o oo by simp
  next
    case False
    have step: "attach x (m, rootTasks) = (m, rootTasks @ [t_id x])"
      using False by (simp add: attach_def)
    have "kids m q (x # xs) = kids m q xs" for q
      using False by (simp add: kids_def)
    moreover have "orphans m (x # xs) = t_id x # orphans m xs"
      using False by (simp add: orphans_def)
    ultimately show ?thesis
      using Cons.IH [of m "rootTasks @ [t_id x]"] step by simp
  qed
qed

lemma buildTree_eq:
  "buildTree ts
   = (map t_id (filter (\<lambda>t. \<not> parent_present ts t) ts),
      \<lambda>q. map_option
             (\<lambda>n. n\<lparr>children := map t_id (filter (\<lambda>t. parent_present ts t \<and> the (t_parentId t) = q) ts)\<rparr>)
             (first_pass ts q))"
proof -
  have "map_option (\<lambda>n. n\<lparr>children := children n @ kids (first_pass ts) q ts\<rparr>) (first_pass ts q)
      = map_option (\<lambda>n. n\<lparr>children := kids (first_pass ts) q ts\<rparr>) (first_pass ts q)" for q
    by (cases "first_pass ts q") (auto dest: first_pass_Some)
  then show ?thesis
    by (simp add: buildTree_def fold_attach orphans_def kids_def has_parent_first_pass)
qed

lemma count_keyed:
  "distinct (map f xs) \<Longrightarrow> t \<in> set xs \<Longrightarrow>
   count_list (map f (filter P xs)) (f t) = (if P t then 1 else 0)"
  by (induction xs) (auto simp: image_iff)

lemma count_zero_notin: "(count_list xs a = 0) = (a \<notin> set xs)"
  by (induction xs) auto

lemma first_pass_node:
  assumes "distinct (map t_id ts)" and "t \<in> set ts"
  shows "first_pass ts (t_id t) = Some \<lparr> n_task = t, children = [] \<rparr>"
proof -
  from assms(2) have "first_pass ts (t_id t) \<noteq> None"
    by (simp add: first_pass_None)
  then obtain n where n: "first_pass ts (t_id t) = Some n"
    by auto
  from first_pass_Some [OF n] have c: "children n = []" "t_id (n_task n) = t_id t" "n_task n \<in> set ts"
    by auto
  with assms have "n_task n = t"
    by (auto simp: distinct_map inj_on_def)
  with c n show ?thesis
    by (cases n) simp
qed

lemma in_forest_ids:
  "in_forest F i \<Longrightarrow> F = buildTree ts \<Longrightarrow> i \<in> t_id ` set ts"
  by (induction rule: in_forest.induct) (auto simp: buildTree_eq)

lemma all_reached:
  fixes rk :: "string \<Rightarrow> nat"
  assumes "\<And>u. u \<in> set ts \<Longrightarrow> parent_present ts u \<Longrightarrow> rk (the (t_parentId u)) < rk (t_id u)"
  shows "t \<in> set ts \<Longrightarrow> in_forest (buildTree ts) (t_id t)"
proof (induction "rk (t_id t)" arbitrary: t rule: less_induct)
  case less
  show ?case
  proof (cases "parent_present ts t")
    case True
    define p where "p = the (t_parentId t)"
    from True obtain u where u: "u \<in> set ts" "t_id u = p"
      by (auto simp: parent_present_def p_def)
    from assms [OF less.prems True] have "rk (t_id u) < rk (t_id t)"
      by (simp add: u p_def)
    from less.hyps [OF this u(1)] have reach: "in_forest (buildTree ts) p"
      by (simp add: u)
    from u have "first_pass ts p \<noteq> None"
      by (auto simp: first_pass_None)
    then obtain n where n: "first_pass ts p = Some n"
      by auto
    have "snd (buildTree ts) p
        = Some (n\<lparr>children := map t_id (filter (\<lambda>t. parent_present ts t \<and> the (t_parentId t) = p) ts)\<rparr>)"
      by (simp add: buildTree_eq n)
    moreover have "t_id t \<in> set (map t_id (filter (\<lambda>t. parent_present ts t \<and> the (t_parentId t) = p) ts))"
      using less.prems True by (auto simp: p_def)
    ultimately show ?thesis
      using reach in_forest.child [of "fst (buildTree ts)" "snd (buildTree ts)" p _ "t_id t"]
      by simp
  next
    case False
    with less.prems have "t_id t \<in> set (fst (buildTree ts))"
      by (auto simp: buildTree_eq)
    then show ?thesis
      using in_forest.root [of "t_id t" "fst (buildTree ts)" "snd (buildTree ts)"] by simp
  qed
qed

lemma buildTree_positions:
  fixes rk :: "string \<Rightarrow> nat"
  assumes "distinct (map t_id ts)" and "t \<in> set ts" and "buildTree ts = (rootTasks, m)"
  shows "(\<exists>node. m (t_id t) = Some node \<and> n_task node = t)
     \<and> (if parent_present ts t
        then (\<exists>parent. m (the (t_parentId t)) = Some parent
                \<and> count_list (children parent) (t_id t) = 1)
             \<and> t_id t \<notin> set rootTasks
             \<and> (\<forall>q node. q \<noteq> the (t_parentId t) \<and> m q = Some node
                   \<longrightarrow> t_id t \<notin> set (children node))
        else count_list rootTasks (t_id t) = 1
             \<and> (\<forall>q node. m q = Some node \<longrightarrow> t_id t \<notin> set (children node)))
     \<and> ((\<forall>u \<in> set ts. parent_present ts u \<longrightarrow> rk (the (t_parentId u)) < rk (t_id u))
          \<longrightarrow> in_forest (rootTasks, m) (t_id t))
     \<and> (\<forall>i. in_forest (rootTasks, m) i \<longrightarrow> i \<in> t_id ` set ts)
     \<and> (\<forall>ts'. mset ts' = mset ts \<longrightarrow>
           set (fst (buildTree ts')) = set rootTasks
           \<and> (\<forall>q. map_option (\<lambda>n. set (children n)) (snd (buildTree ts') q)
                   = map_option (\<lambda>n. set (children n)) (m q)))"
proof -
  from assms(3) have R: "rootTasks = map t_id (filter (\<lambda>t. \<not> parent_present ts t) ts)"
    and M: "m = (\<lambda>q. map_option
             (\<lambda>n. n\<lparr>children := map t_id (filter (\<lambda>t. parent_present ts t \<and> the (t_parentId t) = q) ts)\<rparr>)
             (first_pass ts q))"
    by (simp_all add: buildTree_eq)
  have node: "\<exists>node. m (t_id t) = Some node \<and> n_task node = t"
    by (simp add: M first_pass_node [OF assms(1,2)])
  have cnt: "count_list (map t_id (filter P ts)) (t_id t) = (if P t then 1 else 0)" for P
    by (rule count_keyed [OF assms(1,2)])
  have notin: "\<not> P t \<Longrightarrow> t_id t \<notin> set (map t_id (filter P ts))" for P
    using cnt [of P] by (simp add: count_zero_notin)
  have pos: "if parent_present ts t
        then (\<exists>parent. m (the (t_parentId t)) = Some parent
                \<and> count_list (children parent) (t_id t) = 1)
             \<and> t_id t \<notin> set rootTasks
             \<and> (\<forall>q node. q \<noteq> the (t_parentId t) \<and> m q = Some node
                   \<longrightarrow> t_id t \<notin> set (children node))
        else count_list rootTasks (t_id t) = 1
             \<and> (\<forall>q node. m q = Some node \<longrightarrow> t_id t \<notin> set (children node))"
  proof (cases "parent_present ts t")
    case True
    then have "first_pass ts (the (t_parentId t)) \<noteq> None"
      by (simp add: parent_present_def first_pass_None)
    then obtain n where n: "first_pass ts (the (t_parentId t)) = Some n"
      by auto
    have a: "\<exists>parent. m (the (t_parentId t)) = Some parent \<and> count_list (children parent) (t_id t) = 1"
      using True by (simp add: M n cnt)
    have b: "t_id t \<notin> set rootTasks"
      unfolding R using True by (intro notin) simp
    have c: "t_id t \<notin> set (children node)" if "q \<noteq> the (t_parentId t)" "m q = Some node" for q node
    proof -
      from that(2) have "children node = map t_id (filter (\<lambda>t. parent_present ts t \<and> the (t_parentId t) = q) ts)"
        by (auto simp: M)
      moreover have "t_id t \<notin> set (map t_id (filter (\<lambda>t. parent_present ts t \<and> the (t_parentId t) = q) ts))"
        using that(1) by (intro notin) simp
      ultimately show ?thesis by simp
    qed
    from True a b c show ?thesis by auto
  next
    case False
    have a: "count_list rootTasks (t_id t) = 1"
      unfolding R using False by (simp add: cnt)
    have c: "t_id t \<notin> set (children node)" if "m q = Some node" for q node
    proof -
      from that have "children node = map t_id (filter (\<lambda>t. parent_present ts t \<and> the (t_parentId t) = q) ts)"
        by (auto simp: M)
      moreover have "t_id t \<notin> set (map t_id (filter (\<lambda>t. parent_present ts t \<and> the (t_parentId t) = q) ts))"
        using False by (intro notin) simp
      ultimately show ?thesis by simp
    qed
    from False a c show ?thesis by auto
  qed
  have reach: "in_forest (rootTasks, m) (t_id t)"
    if "\<forall>u \<in> set ts. parent_present ts u \<longrightarrow> rk (the (t_parentId u)) < rk (t_id u)"
    using all_reached [of ts rk t] that assms(2,3) by simp
  have ids: "i \<in> t_id ` set ts" if "in_forest (rootTasks, m) i" for i
    using in_forest_ids [OF that, of ts] assms(3) by simp
  have perm: "set (fst (buildTree ts')) = set rootTasks
           \<and> (\<forall>q. map_option (\<lambda>n. set (children n)) (snd (buildTree ts') q)
                   = map_option (\<lambda>n. set (children n)) (m q))"
    if "mset ts' = mset ts" for ts'
  proof -
    from that have s: "set ts' = set ts"
      by (rule mset_eq_setD)
    then have pp: "parent_present ts' = parent_present ts"
      by (simp add: parent_present_def fun_eq_iff)
    have fp: "(first_pass ts' q = None) = (first_pass ts q = None)" for q
      by (simp add: first_pass_None s)
    have "map_option (\<lambda>n. set (children n)) (snd (buildTree ts') q)
                   = map_option (\<lambda>n. set (children n)) (m q)" for q
      using fp [of q] by (cases "first_pass ts' q"; cases "first_pass ts q") (auto simp: buildTree_eq M pp s)
    moreover have "set (fst (buildTree ts')) = set rootTasks"
      by (simp add: buildTree_eq R pp s)
    ultimately show ?thesis by blast
  qed
  from node pos reach ids perm show ?thesis
    by blast
qed

lemma findByProject_distinct:
  assumes "distinct (map tr_id (tasks d))"
  shows "distinct (map t_id (Task_findByProject d projectId f))"
proof -
  have "map t_id (Task_findByProject d projectId f)
        = map tr_id (sort_key (\<lambda>r. (- tr_priority r, tr_created_at r))
                       (filter (task_matches projectId f) (tasks d)))"
    by (simp add: Task_findByProject_def comp_def)
  moreover have "distinct (map tr_id (filter (task_matches projectId f) (tasks d)))"
    using assms by (rule distinct_map_filter)
  then have "distinct (map tr_id (sort_key (\<lambda>r. (- tr_priority r, tr_created_at r))
                       (filter (task_matches projectId f) (tasks d))))"
    using mset_eq_imp_distinct_iff
            [of "map tr_id (sort_key (\<lambda>r. (- tr_priority r, tr_created_at r))
                       (filter (task_matches projectId f) (tasks d)))"
                "map tr_id (filter (task_matches projectId f) (tasks d))"]
    by simp
  ultimately show ?thesis
    by simp
qed

text \<open>
  Two tasks naming each other as parent are linked into each other's children list and
  neither is a root: the returned array of roots is empty.
\<close>

lemma parent_cycle_has_no_roots:
  "fst (buildTree ex_cycle) = []
   \<and> map_option children (snd (buildTree ex_cycle) ''x'') = Some [''y'']
   \<and> map_option children (snd (buildTree ex_cycle) ''y'') = Some [''x'']"
  by code_simp

text \<open>
  Claim C5. For the tasks of any project, in a store whose task identifiers are unique,
  \<^verbatim>\<open>getTaskTree\<close> gives every task a node of its own and exactly one position: a task whose
  parent identifier is set and belongs to a task of the project occurs exactly once in
  that parent's children list, in no other children list and not among the roots; every
  other task occurs exactly once among the roots and in no children list. Nothing but
  tasks of the project is in the forest. The positions do not depend on the order in
  which the tasks are listed. Where the parent links are acyclic (each present parent
  ranks below its child, as holds when a parent exists before its child is created),
  every task is reached from a root.
\<close>

theorem getTaskTree_one_position:
  fixes rk :: "string \<Rightarrow> nat"
  assumes "distinct (map tr_id (tasks d))"
    and "ts = Task_findByProject d projectId no_filter"
    and "t \<in> set ts"
    and "getTaskTree d projectId = (rootTasks, m)"
  shows "(\<exists>node. m (t_id t) = Some node \<and> n_task node = t)
     \<and> (if parent_present ts t
        then (\<exists>parent. m (the (t_parentId t)) = Some parent
                \<and> count_list (children parent) (t_id t) = 1)
             \<and> t_id t \<notin> set rootTasks
             \<and> (\<forall>q node. q \<noteq> the (t_parentId t) \<and> m q = Some node
                   \<longrightarrow> t_id t \<notin> set (children node))
        else count_list rootTasks (t_id t) = 1
             \<and> (\<forall>q node. m q = Some node \<longrightarrow> t_id t \<notin> set (children node)))
     \<and> ((\<forall>u \<in> set ts. parent_present ts u \<longrightarrow> rk (the (t_parentId u)) < rk (t_id u))
          \<longrightarrow> in_forest (rootTasks, m) (t_id t))
     \<and> (\<forall>i. in_forest (rootTasks, m) i \<longrightarrow> i \<in> t_id ` set ts)
     \<and> (\<forall>ts'. mset ts' = mset ts \<longrightarrow>
           set (fst (buildTree ts')) = set rootTasks
           \<and> (\<forall>q. map_option (\<lambda>n. set (children n)) (snd (buildTree ts') q)
                   = map_option (\<lambda>n. set (children n)) (m q)))"
proof -
  have ids: "distinct (map t_id ts)"
    unfolding assms(2) by (rule findByProject_distinct [OF assms(1)])
  have built: "buildTree ts = (rootTasks, m)"
    using assms(2,4) by (simp add: getTaskTree_def)
  show ?thesis
    by (rule buildTree_positions [OF ids assms(3) built])
qed

text \<open>
  On the example store the query lists \<open>d\<close> first; it still ends up under \<open>b\<close>, \<open>b\<close> under
  \<open>a\<close>, and \<open>c\<close>, whose parent is missing, is a root beside \<open>a\<close>.
\<close>

theorem getTaskTree_one_position_witness:
  "map t_id (Task_findByProject ex_db_tree ''p1'' no_filter) = [''d'', ''a'', ''b'', ''c'']
   \<and> fst (getTaskTree ex_db_tree ''p1'') = [''a'', ''c'']
   \<and> map_option children (snd (getTaskTree ex_db_tree ''p1'') ''a'') = Some [''b'']
   \<and> map_option children (snd (getTaskTree ex_db_tree ''p1'') ''b'') = Some [''d'']
   \<and> map_option children (snd (getTaskTree ex_db_tree ''p1'') ''c'') = Some []
   \<and> map_option children (snd (getTaskTree ex_db_tree ''p1'') ''d'') = Some []
   \<and> in_forest (getTaskTree ex_db_tree ''p1'') ''d''"
proof -
  define ts where "ts = Task_findByProject ex_db_tree ''p1'' no_filter"
  have h1: "distinct (map tr_id (tasks ex_db_tree))"
    by code_simp
  have h3: "taskFromRow ex_task_d \<in> set ts"
    unfolding ts_def by code_simp
  have h4: "getTaskTree ex_db_tree ''p1''
            = (fst (getTaskTree ex_db_tree ''p1''), snd (getTaskTree ex_db_tree ''p1''))"
    by simp
  have acyclic: "\<forall>u \<in> set ts. parent_present ts u
                   \<longrightarrow> ex_rank (the (t_parentId u)) < ex_rank (t_id u)"
    unfolding ts_def by code_simp
  have run: "map t_id (Task_findByProject ex_db_tree ''p1'' no_filter) = [''d'', ''a'', ''b'', ''c'']"
      "fst (getTaskTree ex_db_tree ''p1'') = [''a'', ''c'']"
      "map_option children (snd (getTaskTree ex_db_tree ''p1'') ''a'') = Some [''b'']"
      "map_option children (snd (getTaskTree ex_db_tree ''p1'') ''b'') = Some [''d'']"
      "map_option children (snd (getTaskTree ex_db_tree ''p1'') ''c'') = Some []"
      "map_option children (snd (getTaskTree ex_db_tree ''p1'') ''d'') = Some []"
    by code_simp+
  from getTaskTree_one_position [OF h1 ts_def h3 h4, of ex_rank] acyclic
  have "in_forest (getTaskTree ex_db_tree ''p1'') (t_id (taskFromRow ex_task_d))"
    by simp
  moreover have "t_id (taskFromRow ex_task_d) = ''d''"
    by code_simp
  ultimately show ?thesis
    using run by simp
qed

text \<open>
  Creation and update keep parents before their children, provided the caller does not
  name as parent the identifier the store is about to generate.
\<close>

lemma parents_first_snoc:
  "parents_first seen (rs @ [r])
   = (parents_first seen rs
      \<and> (case tr_parent_id r of None \<Rightarrow> True | Some p \<Rightarrow> p \<in> set seen \<union> set (map tr_id rs)))"
  by (induction rs arbitrary: seen) (auto split: option.splits)

lemma parents_first_map:
  assumes "\<And>r. tr_id (g r) = tr_id r" and "\<And>r. tr_parent_id (g r) = tr_parent_id r"
  shows "parents_first seen (map g rs) = parents_first seen rs"
  using assms by (induction rs arbitrary: seen) auto

lemma Task_create_keeps_parents_first:
  assumes "parents_first [] (tasks d)"
    and "Task_create e d item = (Inr t, d')"
    and "tc_parentId item \<noteq> Some (fresh_id e)"
  shows "parents_first [] (tasks d')"
  using assms
  by (auto simp: Task_create_def sql_insert_tasks_def Let_def parents_first_snoc or_undefined_def
      split: if_splits sum.splits option.splits)

lemma Task_update_keeps_parents_first:
  "parents_first [] (tasks (snd (Task_update e d i u))) = parents_first [] (tasks d)"
proof -
  have "parents_first [] (map (\<lambda>r. if tr_id r = i then task_set (now e) u r else r) (tasks d))
        = parents_first [] (tasks d)"
    by (rule parents_first_map) (simp_all add: task_set_def)
  then show ?thesis
    by (simp add: Task_update_def sql_update_tasks_def)
qed

lemma parents_first_index:
  assumes "parents_first seen rs" and "distinct (map tr_id rs)" and "r \<in> set rs"
    and "tr_parent_id r = Some p" and "p \<notin> set seen"
  shows "row_index rs p < row_index rs (tr_id r)"
  using assms
proof (induction rs arbitrary: seen)
  case Nil
  then show ?case by simp
next
  case (Cons a rest)
  show ?case
  proof (cases "r = a")
    case True
    with Cons.prems show ?thesis by simp
  next
    case False
    with Cons.prems have r: "r \<in> set rest"
      by simp
    from Cons.prems(2) have "tr_id a \<notin> tr_id ` set rest"
      by simp
    with r have ne: "tr_id r \<noteq> tr_id a"
      by (metis imageI)
    show ?thesis
    proof (cases "p = tr_id a")
      case True
      with ne show ?thesis by (simp add: row_index_def)
    next
      case False
      with Cons.prems have "p \<notin> set (seen @ [tr_id a])"
        by simp
      from Cons.IH [OF _ _ r Cons.prems(4) this] Cons.prems
      have "row_index rest p < row_index rest (tr_id r)"
        by simp
      with False ne show ?thesis
        by (simp add: row_index_def)
    qed
  qed
qed

lemma stored_parents_ranked:
  assumes "parents_first [] (tasks d)" and "distinct (map tr_id (tasks d))"
    and "ts = Task_findByProject d projectId no_filter"
    and "u \<in> set ts" and "parent_present ts u"
  shows "row_index (tasks d) (the (t_parentId u)) < row_index (tasks d) (t_id u)"
proof -
  from assms(3,4) obtain r where r: "r \<in> set (tasks d)" "u = taskFromRow r"
    by (auto simp: Task_findByProject_def)
  from assms(5) obtain p where p: "t_parentId u = Some p" "p \<noteq> []"
    by (cases "t_parentId u") (auto simp: parent_present_def)
  with r have "tr_parent_id r = Some p"
    by (auto simp: taskFromRow_def or_undefined_def split: if_splits)
  from parents_first_index [OF assms(1,2) r(1) this] p r show ?thesis
    by simp
qed

text \<open>
  In a store where every parent row precedes its children, as creation leaves it, every
  task of a project is reached from the roots that \<^verbatim>\<open>getTaskTree\<close> returns.
\<close>

lemma getTaskTree_reaches_all:
  assumes "parents_first [] (tasks d)" and "distinct (map tr_id (tasks d))"
    and "t \<in> set (Task_findByProject d projectId no_filter)"
  shows "in_forest (getTaskTree d projectId) (t_id t)"
  unfolding getTaskTree_def
  using stored_parents_ranked [OF assms(1,2) refl] assms(3)
  by (intro all_reached [where rk = "row_index (tasks d)"]) auto

end
